theory Spec2Isabelle
  imports Main "HOL-Library.AList" "HOL-Library.Monad_Syntax"
begin

section \<open>JavaScript strings\<close>

text \<open>
  A string is a list of characters, each standing for one code unit below 256.
  Of the code units that JavaScript counts as white space (the class \<^verbatim>\<open>\s\<close> of a regular
  expression, which is also what \<^verbatim>\<open>trim\<close> removes), those below 256 are TAB, LF, VT, FF,
  CR, SPACE and NO-BREAK SPACE.
\<close>

definition isWhiteSpace :: "char \<Rightarrow> bool" where
  "isWhiteSpace c = (c \<in> set [CHR 0x09, CHR 0x0A, CHR 0x0B, CHR 0x0C, CHR 0x0D, CHR 0x20, CHR 0xA0])"

text \<open>The class \<^verbatim>\<open>\d\<close>: the ten ASCII digits.\<close>

definition isDigit :: "char \<Rightarrow> bool" where
  "isDigit c = (c \<in> set ''0123456789'')"

text \<open>Removing the longest suffix of characters that satisfy a test.\<close>

definition dropWhileEnd :: "(char \<Rightarrow> bool) \<Rightarrow> string \<Rightarrow> string" where
  "dropWhileEnd P s = rev (dropWhile P (rev s))"

text \<open>\<^verbatim>\<open>String.prototype.trim\<close>.\<close>

definition trim :: "string \<Rightarrow> string" where
  "trim s = dropWhileEnd isWhiteSpace (dropWhile isWhiteSpace s)"

text \<open>
  \<^verbatim>\<open>s.split(sep)\<close> for a non-empty separator string: the pieces between the occurrences of
  \<^verbatim>\<open>sep\<close>, found from left to right without overlap. The second argument is the piece
  read so far. (The code only splits on the literals \<^verbatim>\<open>', '\<close>, \<^verbatim>\<open>' at '\<close>, \<^verbatim>\<open>' vs. '\<close>
  and \<^verbatim>\<open>'-'\<close>.)
\<close>

function split_js :: "string \<Rightarrow> string \<Rightarrow> string \<Rightarrow> string list" where
  "split_js sep acc [] = [acc]"
| "split_js sep acc (c # cs) =
     (if sep \<noteq> [] \<and> take (length sep) (c # cs) = sep
      then acc # split_js sep [] (drop (length sep) (c # cs))
      else split_js sep (acc @ [c]) cs)"
  by pat_completeness auto
termination
  by (relation "measure (\<lambda>(sep, acc, s). length s)") auto

text \<open>
  \<^verbatim>\<open>s.split(/\s+/)\<close>: the pieces between the maximal runs of white space. A run at the
  start or at the end of the string leaves an empty piece there, and the empty string
  splits into one empty piece.
\<close>

function split_ws :: "string \<Rightarrow> string \<Rightarrow> string list" where
  "split_ws acc [] = [acc]"
| "split_ws acc (c # cs) =
     (if isWhiteSpace c then acc # split_ws [] (dropWhile isWhiteSpace cs)
      else split_ws (acc @ [c]) cs)"
  by pat_completeness auto
termination
  by (relation "measure (\<lambda>(acc, s). length s)") (auto simp: less_Suc_eq_le length_dropWhile_le)

text \<open>\<^verbatim>\<open>Array.prototype.join\<close> on an array of strings.\<close>

fun join :: "string \<Rightarrow> string list \<Rightarrow> string" where
  "join sep [] = []"
| "join sep [x] = x"
| "join sep (x # y # ys) = x @ sep @ join sep (y # ys)"

text \<open>\<^verbatim>\<open>sep\<close> occurs in \<^verbatim>\<open>s\<close> (\<^verbatim>\<open>s.includes(sep)\<close>).\<close>

fun occurs :: "string \<Rightarrow> string \<Rightarrow> bool" where
  "occurs sep [] = (sep = [])"
| "occurs sep (c # cs) = (take (length sep) (c # cs) = sep \<or> occurs sep cs)"

section \<open>JavaScript numbers\<close>

text \<open>
  A JavaScript number is an IEEE double. The embedding follows the values that are
  integers of magnitude at most \<open>2^53\<close>, which a double holds exactly, and \<^verbatim>\<open>NaN\<close>;
  every other value is \<open>Untracked\<close> and is not followed further.
\<close>

datatype jsnum = NaN | Num int | Untracked

definition mk_num :: "int \<Rightarrow> jsnum" where
  "mk_num n = (if \<bar>n\<bar> \<le> 2 ^ 53 then Num n else Untracked)"

definition isNaN :: "jsnum \<Rightarrow> bool" where
  "isNaN x = (x = NaN)"

text \<open>Subtraction of two numbers.\<close>

definition num_sub :: "jsnum \<Rightarrow> jsnum \<Rightarrow> jsnum" where
  "num_sub x y =
     (case (x, y) of
        (Num a, Num b) \<Rightarrow> mk_num (a - b)
      | (NaN, _) \<Rightarrow> NaN
      | (_, NaN) \<Rightarrow> NaN
      | _ \<Rightarrow> Untracked)"

text \<open>The value of a character as a digit of a radix up to 16.\<close>

definition digitValue :: "char \<Rightarrow> nat option" where
  "digitValue c =
     (let n = (of_char c :: nat) in
      if 48 \<le> n \<and> n \<le> 57 then Some (n - 48)
      else if 97 \<le> n \<and> n \<le> 102 then Some (n - 87)
      else if 65 \<le> n \<and> n \<le> 70 then Some (n - 55)
      else None)"

definition isRadixDigit :: "nat \<Rightarrow> char \<Rightarrow> bool" where
  "isRadixDigit radix c = (case digitValue c of None \<Rightarrow> False | Some d \<Rightarrow> d < radix)"

text \<open>The integer that a string of digits denotes in a radix.\<close>

definition digitsValue :: "nat \<Rightarrow> string \<Rightarrow> int" where
  "digitsValue radix ds = foldl (\<lambda>v c. v * int radix + int (case digitValue c of None \<Rightarrow> 0 | Some d \<Rightarrow> d)) 0 ds"

text \<open>
  \<^verbatim>\<open>parseInt(s)\<close> with no radix argument: leading white space is skipped, one sign is
  read, a prefix \<^verbatim>\<open>0x\<close> or \<^verbatim>\<open>0X\<close> selects radix 16 (otherwise 10), and the longest run of
  digits of the radix is the value; with no digit the result is \<^verbatim>\<open>NaN\<close>.
\<close>

definition parseInt :: "string \<Rightarrow> jsnum" where
  "parseInt s =
     (let t = dropWhile isWhiteSpace s;
          neg = (take 1 t = ''-'');
          u = (if take 1 t = ''-'' \<or> take 1 t = ''+'' then drop 1 t else t);
          hex = (take 2 u = ''0x'' \<or> take 2 u = ''0X'');
          radix = (if hex then 16 else 10);
          v = (if hex then drop 2 u else u);
          ds = takeWhile (isRadixDigit radix) v
      in if ds = [] then NaN
         else mk_num ((if neg then - 1 else 1) * digitsValue radix ds))"

section \<open>The game-string parser\<close>

record GameResult =
  Winner :: "string option"
  WinnerRank :: "string option"
  WinnerScore :: "string option"
  Loser :: "string option"
  LoserRank :: "string option"
  LoserScore :: "string option"
  OT :: "string option"
  ActualMOV :: "jsnum option"
  isCompleted :: bool
  isNeutral :: bool
  isAway :: bool

text \<open>
  \<^verbatim>\<open>s.match(/\((\d?OT)\)$/)\<close>, the first group: the string ends with \<^verbatim>\<open>(OT)\<close> or with
  \<^verbatim>\<open>(dOT)\<close> for a digit \<^verbatim>\<open>d\<close>. The two endings exclude each other.
\<close>

definition otMatch :: "string \<Rightarrow> string option" where
  "otMatch s =
     (let r = rev s in
      if take 4 r = '')TO(''
      then Some ''OT''
      else if take 3 r = '')TO'' \<and> 5 \<le> length r \<and> isDigit (r ! 3) \<and> r ! 4 = CHR ''(''
      then Some [r ! 3, CHR ''O'', CHR ''T'']
      else None)"

text \<open>
  \<^verbatim>\<open>s.replace(/\s*\(\d?OT\)\s*$/, '')\<close>: the pattern can only match at the end of the
  string, where it takes the white space after the marker, the marker, and all the white
  space before it.
\<close>

definition removeOT :: "string \<Rightarrow> string" where
  "removeOT s =
     (let t = dropWhileEnd isWhiteSpace s in
      case otMatch t of
        None \<Rightarrow> s
      | Some ot \<Rightarrow> dropWhileEnd isWhiteSpace (take (length t - (length ot + 2)) t))"

text \<open>
  The local \<^verbatim>\<open>processedStr\<close>: the game string itself, or, when it ends with an overtime
  marker, the string with the marker removed and then trimmed.
\<close>

definition processedStr :: "string \<Rightarrow> string" where
  "processedStr s = (case otMatch s of Some ot \<Rightarrow> trim (removeOT s) | None \<Rightarrow> s)"

definition emptyResult :: GameResult where
  "emptyResult =
     \<lparr>Winner = None, WinnerRank = None, WinnerScore = None,
      Loser = None, LoserRank = None, LoserScore = None,
      OT = None, ActualMOV = None,
      isCompleted = False, isNeutral = False, isAway = False\<rparr>"

text \<open>
  The margin of a completed game: computed when both scores are non-empty strings and
  \<^verbatim>\<open>parseInt\<close> reads a number from each.
\<close>

definition actualMOV :: "string option \<Rightarrow> string option \<Rightarrow> jsnum option" where
  "actualMOV ws ls =
     (case (ws, ls) of
        (Some w, Some l) \<Rightarrow>
          if w \<noteq> [] \<and> l \<noteq> [] then
            (let winScore = parseInt w; loseScore = parseInt l in
             if \<not> isNaN winScore \<and> \<not> isNaN loseScore then Some (num_sub winScore loseScore)
             else None)
          else None
      | _ \<Rightarrow> None)"

text \<open>
  \<^verbatim>\<open>parseGameResult\<close>. The argument is \<open>None\<close> for \<^verbatim>\<open>null\<close> or \<^verbatim>\<open>undefined\<close>. The function
  has no \<^verbatim>\<open>throw\<close> and calls nothing that throws on a string, so the result is a plain
  \<open>GameResult\<close>.
\<close>

definition parseGameResult :: "string option \<Rightarrow> GameResult" where
  "parseGameResult gameStr =
     (let result = emptyResult in
      case gameStr of
        None \<Rightarrow> result
      | Some s \<Rightarrow>
          if s = [] then result
          else
            let result = (case otMatch s of Some ot \<Rightarrow> result\<lparr>OT := Some ot\<rparr> | None \<Rightarrow> result);
                teams = split_js '', '' [] (processedStr s)
            in
            if length teams = 2 then
              let result = result\<lparr>isCompleted := True\<rparr>;
                  winnerParts = split_ws [] (trim (teams ! 0));
                  loserParts = split_ws [] (trim (teams ! 1));
                  result =
                    (if 3 \<le> length winnerParts
                     then result\<lparr>WinnerRank := Some (hd winnerParts),
                                 WinnerScore := Some (last winnerParts),
                                 Winner := Some (join '' '' (butlast (tl winnerParts)))\<rparr>
                     else result);
                  result =
                    (if 3 \<le> length loserParts
                     then result\<lparr>LoserRank := Some (hd loserParts),
                                 LoserScore := Some (last loserParts),
                                 Loser := Some (join '' '' (butlast (tl loserParts)))\<rparr>
                     else result)
              in result\<lparr>ActualMOV := actualMOV (WinnerScore result) (LoserScore result)\<rparr>
            else
              let teams = split_js '' at '' [] (processedStr s) in
              if length teams = 2 then
                let result = result\<lparr>isAway := True\<rparr>;
                    team1Parts = split_ws [] (trim (teams ! 0));
                    team2Parts = split_ws [] (trim (teams ! 1));
                    result =
                      (if 2 \<le> length team1Parts
                       then result\<lparr>WinnerRank := Some (hd team1Parts),
                                   Winner := Some (join '' '' (tl team1Parts))\<rparr>
                       else result);
                    result =
                      (if 2 \<le> length team2Parts
                       then result\<lparr>LoserRank := Some (hd team2Parts),
                                   Loser := Some (join '' '' (tl team2Parts))\<rparr>
                       else result)
                in result
              else
                let teams = split_js '' vs. '' [] (processedStr s) in
                if length teams = 2 then
                  let result = result\<lparr>isNeutral := True\<rparr>;
                      team1Parts = split_ws [] (trim (teams ! 0));
                      team2Parts = split_ws [] (trim (teams ! 1));
                      result =
                        (if 2 \<le> length team1Parts
                         then result\<lparr>WinnerRank := Some (hd team1Parts),
                                     Winner := Some (join '' '' (tl team1Parts))\<rparr>
                         else result);
                      result =
                        (if 2 \<le> length team2Parts
                         then result\<lparr>LoserRank := Some (hd team2Parts),
                                     Loser := Some (join '' '' (tl team2Parts))\<rparr>
                         else result)
                  in result
                else result)"

text \<open>
  The shape that the specification gives a completed-game string: a token is a non-empty
  string without white space, a score is a token of at most 15 decimal digits (so that its
  value is an exact JavaScript number), and a side is its rank, its name tokens and its
  score, joined by single spaces.
\<close>

definition isToken :: "string \<Rightarrow> bool" where
  "isToken t = (t \<noteq> [] \<and> list_all (\<lambda>c. \<not> isWhiteSpace c) t)"

definition isScore :: "string \<Rightarrow> bool" where
  "isScore t = (t \<noteq> [] \<and> list_all isDigit t \<and> length t \<le> 15)"

definition side :: "string \<Rightarrow> string list \<Rightarrow> string \<Rightarrow> string" where
  "side rank nameTokens score = join '' '' (rank # nameTokens @ [score])"

section \<open>Seeds\<close>

text \<open>
  \<^verbatim>\<open>stripSeed\<close>: \<^verbatim>\<open>team.replace(/\d+/g, '').trim()\<close> deletes every run of digits, that is
  every digit. A \<^verbatim>\<open>null\<close>, \<^verbatim>\<open>undefined\<close> or empty argument gives the empty string.
\<close>

definition stripSeed :: "string option \<Rightarrow> string" where
  "stripSeed team =
     (case team of
        None \<Rightarrow> []
      | Some t \<Rightarrow> if t = [] then [] else trim (filter (\<lambda>c. \<not> isDigit c) t))"

text \<open>
  \<^verbatim>\<open>extractSeed\<close>: \<^verbatim>\<open>team.match(/(\d+)/)\<close> finds the leftmost digit and takes the whole run
  of digits that starts there.
\<close>

definition extractSeed :: "string option \<Rightarrow> string option" where
  "extractSeed team =
     (case team of
        None \<Rightarrow> None
      | Some t \<Rightarrow>
          if t = [] then None
          else
            let r = dropWhile (\<lambda>c. \<not> isDigit c) t in
            if r = [] then None else Some (takeWhile isDigit r))"

section \<open>The prediction-string parser\<close>

text \<open>
  Pieces of a regular expression, each reading a prefix of the input and returning what
  it read and the rest: a non-empty greedy run of a character class, and one literal
  character. In the two prediction patterns every greedy run is followed by a character
  outside its class, so the longest run is the only one that can lead to a match and no
  backtracking into a run takes place.
\<close>

definition many1 :: "(char \<Rightarrow> bool) \<Rightarrow> string \<Rightarrow> (string \<times> string) option" where
  "many1 P s = (if takeWhile P s = [] then None else Some (takeWhile P s, dropWhile P s))"

definition lit :: "char \<Rightarrow> string \<Rightarrow> string option" where
  "lit c s = (case s of [] \<Rightarrow> None | x # r \<Rightarrow> if x = c then Some r else None)"

text \<open>
  \<^verbatim>\<open>\s+(\d+-\d+)\s*\((\d+%)\)\<close>: the groups 2 and 3 of the prediction patterns and the
  rest of the input.
\<close>

definition matchScoreProb :: "string \<Rightarrow> (string \<times> string \<times> string) option" where
  "matchScoreProb s =
     do {
       (sp, s1) \<leftarrow> many1 isWhiteSpace s;
       (a, s2) \<leftarrow> many1 isDigit s1;
       s3 \<leftarrow> lit CHR ''-'' s2;
       (b, s4) \<leftarrow> many1 isDigit s3;
       s5 \<leftarrow> lit CHR ''('' (dropWhile isWhiteSpace s4);
       (p, s6) \<leftarrow> many1 isDigit s5;
       s7 \<leftarrow> lit CHR ''%'' s6;
       s8 \<leftarrow> lit CHR '')'' s7;
       Some (a @ ''-'' @ b, p @ ''%'', s8)
     }"

text \<open>\<^verbatim>\<open>\s*\[(\d+)\]\<close>: the group 4 of the full pattern.\<close>

definition matchPossessions :: "string \<Rightarrow> string option" where
  "matchPossessions s =
     do {
       s1 \<leftarrow> lit CHR ''['' (dropWhile isWhiteSpace s);
       (n, s2) \<leftarrow> many1 isDigit s1;
       s3 \<leftarrow> lit CHR '']'' s2;
       Some n
     }"

text \<open>
  The class \<^verbatim>\<open>.\<close> excludes the line terminators; below 256 these are LF and CR.
\<close>

definition isLineTerminator :: "char \<Rightarrow> bool" where
  "isLineTerminator c = (c \<in> set [CHR 0x0A, CHR 0x0D])"

text \<open>
  \<^verbatim>\<open>^(.+?)\<close> followed by the rest of a pattern: the lazy group is tried with one
  character, then two, and so on, and the first length at which the rest of the pattern
  matches is taken. The second argument is the group read so far.
\<close>

fun lazyGroup :: "(string \<Rightarrow> 'a option) \<Rightarrow> string \<Rightarrow> string \<Rightarrow> (string \<times> 'a) option" where
  "lazyGroup rest g [] = None"
| "lazyGroup rest g (c # cs) =
     (if isLineTerminator c then None
      else case rest cs of
             Some r \<Rightarrow> Some (g @ [c], r)
           | None \<Rightarrow> lazyGroup rest (g @ [c]) cs)"

text \<open>\<^verbatim>\<open>pred.match(/^(.+?)\s+(\d+-\d+)\s*\((\d+%)\)\s*\[(\d+)\]/)\<close>: the groups 1 to 4.\<close>

definition predMatch :: "string \<Rightarrow> (string \<times> string \<times> string \<times> string) option" where
  "predMatch pred =
     lazyGroup
       (\<lambda>s. do {
              (score, prob, s1) \<leftarrow> matchScoreProb s;
              n \<leftarrow> matchPossessions s1;
              Some (score, prob, n)
            })
       [] pred"

text \<open>\<^verbatim>\<open>pred.match(/^(.+?)\s+(\d+-\d+)\s*\((\d+%)\)/)\<close>: the groups 1 to 3.\<close>

definition simplePredMatch :: "string \<Rightarrow> (string \<times> string \<times> string) option" where
  "simplePredMatch pred =
     lazyGroup
       (\<lambda>s. do {
              (score, prob, s1) \<leftarrow> matchScoreProb s;
              Some (score, prob)
            })
       [] pred"

text \<open>
  \<^verbatim>\<open>Number(s)\<close> and \<^verbatim>\<open>parseFloat(s)\<close>, followed on non-empty strings of decimal digits, which
  is all the prediction parser passes to them (pieces of a match of \<^verbatim>\<open>\d+\<close>); the result
  for any other string is not followed.
\<close>

definition toNumber :: "string \<Rightarrow> jsnum" where
  "toNumber s = (if s \<noteq> [] \<and> list_all isDigit s then mk_num (digitsValue 10 s) else Untracked)"

definition parseFloat :: "string \<Rightarrow> jsnum" where
  "parseFloat s = (if s \<noteq> [] \<and> list_all isDigit s then mk_num (digitsValue 10 s) else Untracked)"

record Prediction =
  PredictedWinner :: "string option"
  PredictedScore :: "string option"
  WinProbability :: "string option"
  PredictedPossessions :: "jsnum option"
  PredictedMOV :: "jsnum option"

text \<open>
  \<^verbatim>\<open>scores = score.split('-').map(Number)\<close>, and the margin when there are two scores.
\<close>

definition predictedMOV :: "string \<Rightarrow> jsnum option" where
  "predictedMOV score =
     (let scores = map toNumber (split_js ''-'' [] score) in
      if length scores = 2 then Some (num_sub (scores ! 0) (scores ! 1)) else None)"

text \<open>
  The prediction block of \<^verbatim>\<open>parseFanMatch\<close>, as a function of the cell text
  \<^verbatim>\<open>rowData['Prediction'] ?? ''\<close>. A matched group is never empty, so the tests
  \<^verbatim>\<open>predMatch[4] ? ... : null\<close> and \<^verbatim>\<open>?? null\<close> keep the matched text.
\<close>

definition parsePrediction :: "string \<Rightarrow> Prediction" where
  "parsePrediction pred =
     (case predMatch pred of
        Some (winner, score, prob, poss) \<Rightarrow>
          \<lparr>PredictedWinner = Some (trim winner),
           PredictedScore = Some score,
           WinProbability = Some prob,
           PredictedPossessions = (if poss \<noteq> [] then Some (parseFloat poss) else None),
           PredictedMOV = predictedMOV score\<rparr>
      | None \<Rightarrow>
          (case simplePredMatch pred of
             Some (winner, score, prob) \<Rightarrow>
               \<lparr>PredictedWinner = Some (trim winner),
                PredictedScore = Some score,
                WinProbability = Some prob,
                PredictedPossessions = None,
                PredictedMOV = predictedMOV score\<rparr>
           | None \<Rightarrow>
               \<lparr>PredictedWinner = None,
                PredictedScore = None,
                WinProbability = None,
                PredictedPossessions = None,
                PredictedMOV = None\<rparr>))"

text \<open>
  The two shapes of a prediction string in the words of the specification: a name, white
  space, \<^verbatim>\<open>score-score\<close>, \<^verbatim>\<open>(NN%)\<close> and, in the full shape, \<^verbatim>\<open>[possessions]\<close>, with optional
  white space before each bracket. A numeral is a non-empty run of decimal digits.
\<close>

definition isNumeral :: "string \<Rightarrow> bool" where
  "isNumeral t = (t \<noteq> [] \<and> list_all isDigit t)"

definition reducedPrediction ::
  "string \<Rightarrow> string \<Rightarrow> string \<Rightarrow> string \<Rightarrow> string \<Rightarrow> string \<Rightarrow> string" where
  "reducedPrediction name sp a b sp2 p = name @ sp @ a @ ''-'' @ b @ sp2 @ ''('' @ p @ ''%)''"

definition fullPrediction ::
  "string \<Rightarrow> string \<Rightarrow> string \<Rightarrow> string \<Rightarrow> string \<Rightarrow> string \<Rightarrow> string \<Rightarrow> string \<Rightarrow> string" where
  "fullPrediction name sp a b sp2 p sp3 n =
     reducedPrediction name sp a b sp2 p @ sp3 @ ''['' @ n @ '']''"

text \<open>
  The parts of a shape are well formed when the name is non-empty and has no line feed
  and no carriage return, the first run of white space is non-empty, and the scores and
  the percentage are numerals.
\<close>

definition wellFormed ::
  "string \<Rightarrow> string \<Rightarrow> string \<Rightarrow> string \<Rightarrow> string \<Rightarrow> string \<Rightarrow> bool" where
  "wellFormed name sp a b sp2 p =
     (name \<noteq> [] \<and> CHR 0x0A \<notin> set name \<and> CHR 0x0D \<notin> set name \<and>
      sp \<noteq> [] \<and> list_all isWhiteSpace sp \<and>
      isNumeral a \<and> isNumeral b \<and> list_all isWhiteSpace sp2 \<and> isNumeral p)"

section \<open>Tables\<close>

text \<open>
  A table element as the parsers see it through \<^verbatim>\<open>find\<close>: its \<^verbatim>\<open>thead\<close>, \<^verbatim>\<open>tbody\<close> and
  \<^verbatim>\<open>tfoot\<close> sections and the rows outside any section, in document order; a row is its
  \<^verbatim>\<open>th\<close> and \<^verbatim>\<open>td\<close> cells, each with its text content. Tables nested in cells are not
  modelled.
\<close>

datatype cell = Th string | Td string

type_synonym row = "cell list"

datatype part = Thead "row list" | Tbody "row list" | Tfoot "row list" | Tr row

type_synonym table = "part list"

fun cellText :: "cell \<Rightarrow> string" where
  "cellText (Th t) = t"
| "cellText (Td t) = t"

fun isTd :: "cell \<Rightarrow> bool" where
  "isTd (Td t) = True"
| "isTd (Th t) = False"

fun partRows :: "part \<Rightarrow> row list" where
  "partRows (Thead rs) = rs"
| "partRows (Tbody rs) = rs"
| "partRows (Tfoot rs) = rs"
| "partRows (Tr r) = [r]"

fun isTbody :: "part \<Rightarrow> bool" where
  "isTbody (Tbody rs) = True"
| "isTbody _ = False"

fun isThead :: "part \<Rightarrow> bool" where
  "isThead (Thead rs) = True"
| "isThead _ = False"

text \<open>\<^verbatim>\<open>table.find('tr')\<close>, \<^verbatim>\<open>table.find('tbody')\<close> and \<^verbatim>\<open>table.find('thead')\<close>.\<close>

definition find_tr :: "table \<Rightarrow> row list" where
  "find_tr tbl = concat (map partRows tbl)"

definition find_tbody :: "table \<Rightarrow> table" where
  "find_tbody tbl = filter isTbody tbl"

definition find_thead :: "table \<Rightarrow> table" where
  "find_thead tbl = filter isThead tbl"

text \<open>The texts of the \<^verbatim>\<open>td\<close> cells of a row: \<^verbatim>\<open>$(row).find('td')\<close> with \<^verbatim>\<open>$(cell).text()\<close>.\<close>

definition find_td :: "row \<Rightarrow> string list" where
  "find_td r = map cellText (filter isTd r)"

text \<open>
  The body rows, as \<^verbatim>\<open>extractRows\<close>, \<^verbatim>\<open>parseTableElement\<close> and the other parsers select
  them: \<^verbatim>\<open>tbody.length > 0 ? tbody.find('tr') : table.find('tr').slice(1)\<close>.
\<close>

definition bodyRows :: "table \<Rightarrow> row list" where
  "bodyRows tbl =
     (let tbody = find_tbody tbl in
      if length tbody > 0 then find_tr tbody else drop 1 (find_tr tbl))"

text \<open>
  A loaded document, as its query function \<^verbatim>\<open>$\<close>: the elements that match a selector, in
  document order.
\<close>

type_synonym document = "string \<Rightarrow> table list"

text \<open>
  \<^verbatim>\<open>tables.eq(i)\<close>: the selection that holds the element at index \<^verbatim>\<open>i\<close>, counted from the
  end when \<^verbatim>\<open>i\<close> is negative, or no element when there is none at that index.
\<close>

definition eq_sel :: "'a list \<Rightarrow> int \<Rightarrow> 'a list" where
  "eq_sel xs i =
     (let j = (if i < 0 then int (length xs) + i else i) in
      if 0 \<le> j \<and> j < int (length xs) then [xs ! nat j] else [])"

text \<open>
  The errors that the table locators throw, one constructor for each message, with the
  values that the message interpolates:
  \<^verbatim>\<open>No tables found\<close>,
  \<^verbatim>\<open>No tables found matching selector: ${selector}\<close> and
  \<^verbatim>\<open>Table index ${tableIndex} out of bounds. Found ${tables.length} tables.\<close>
\<close>

datatype error = NoTablesFound | NoTablesMatching string | IndexOutOfBounds int nat

text \<open>
  \<^verbatim>\<open>getTable\<close> of the parsers, on the loaded document. A search in the selection that
  \<^verbatim>\<open>eq\<close> returns is a search in its elements in order, so the selection is handed on as
  the concatenation of its elements.
\<close>

definition getTable :: "document \<Rightarrow> int \<Rightarrow> error + table" where
  "getTable doc tableIndex =
     (let tables = doc ''table'' in
      if length tables = 0 then Inl NoTablesFound
      else if int (length tables) \<le> tableIndex
      then Inl (IndexOutOfBounds tableIndex (length tables))
      else Inr (concat (eq_sel tables tableIndex)))"

section \<open>Row extraction\<close>

text \<open>
  A \<^verbatim>\<open>TableRow\<close> object as the list of its own properties, in the order in which they were
  first set. (JavaScript lists integer-like keys before the others; nothing below
  depends on the order.) The assignment \<^verbatim>\<open>rowData[key] = value\<close> of a string sets or
  replaces the property, except for the key \<^verbatim>\<open>__proto__\<close>, whose setter ignores a string
  and leaves the object as it is.
\<close>

type_synonym TableRow = "(string \<times> string) list"

definition setProperty :: "string \<Rightarrow> string \<Rightarrow> TableRow \<Rightarrow> TableRow" where
  "setProperty key val obj = (if key = ''__proto__'' then obj else AList.update key val obj)"

text \<open>
  The inner loop of \<^verbatim>\<open>extractRows\<close>, \<^verbatim>\<open>cells.each((j, cell) => ...)\<close>, from ordinal \<^verbatim>\<open>j\<close>
  on: \<^verbatim>\<open>columns[j]\<close> is \<^verbatim>\<open>undefined\<close> exactly when \<^verbatim>\<open>j\<close> is not below the length.
\<close>

fun extractCells :: "string list \<Rightarrow> nat \<Rightarrow> string list \<Rightarrow> TableRow \<Rightarrow> TableRow" where
  "extractCells columns j [] rowData = rowData"
| "extractCells columns j (cell # cells) rowData =
     extractCells columns (j + 1) cells
       (if j < length columns then setProperty (columns ! j) (trim cell) rowData else rowData)"

text \<open>The outer loop, \<^verbatim>\<open>bodyRows.each((_i, row) => ...)\<close>, with the rows pushed so far.\<close>

fun extractBody :: "string list \<Rightarrow> row list \<Rightarrow> TableRow list \<Rightarrow> TableRow list" where
  "extractBody columns [] rows = rows"
| "extractBody columns (r # rs) rows =
     (let cells = find_td r in
      if length cells = 0 then extractBody columns rs rows
      else
        let rowData = extractCells columns 0 cells [] in
        if length rowData > 0 then extractBody columns rs (rows @ [rowData])
        else extractBody columns rs rows)"

definition extractRows :: "table \<Rightarrow> string list \<Rightarrow> TableRow list" where
  "extractRows tbl columns = extractBody columns (bodyRows tbl) []"

text \<open>
  The row extractor in the words of the specification: the assignments
  \<^verbatim>\<open>row[schema[j]] = trim(cellText)\<close> for the ordinals \<^verbatim>\<open>j\<close> below both the cell count and
  the schema length, in order.
\<close>

definition assignCells :: "string list \<Rightarrow> string list \<Rightarrow> TableRow" where
  "assignCells schema cells =
     foldl (\<lambda>r j. setProperty (schema ! j) (trim (cells ! j)) r) []
       [0 ..< min (length cells) (length schema)]"

section \<open>Header derivation\<close>

text \<open>The decimal digits of an index, as a template literal prints it.\<close>

function showNat :: "nat \<Rightarrow> string" where
  "showNat n =
     (if n < 10 then [char_of (48 + n)] else showNat (n div 10) @ [char_of (48 + n mod 10)])"
  by pat_completeness auto
termination
  by (relation "measure (\<lambda>n. n)") auto

declare showNat.simps [simp del]

text \<open>
  \<^verbatim>\<open>parseTableElement\<close>: the header row is the last row of the \<^verbatim>\<open>thead\<close>, or the first row
  of the table when there is no \<^verbatim>\<open>thead\<close>; its cells are \<^verbatim>\<open>headerRow.find('th, td')\<close>.
\<close>

definition headerRow :: "table \<Rightarrow> row" where
  "headerRow tbl =
     (let thead = find_thead tbl in
      if length thead > 0
      then (case find_tr thead of [] \<Rightarrow> [] | r # rs \<Rightarrow> last (r # rs))
      else (case find_tr tbl of [] \<Rightarrow> [] | r # rs \<Rightarrow> r))"

text \<open>
  The header loop of \<^verbatim>\<open>parseTableElement\<close> from index \<^verbatim>\<open>i\<close> on, with the headers pushed
  so far: an empty text becomes \<^verbatim>\<open>Column${i}\<close>, and a text that the headers already
  include becomes \<^verbatim>\<open>${text}_${i}\<close>.
\<close>

fun tableElementHeaders :: "nat \<Rightarrow> string list \<Rightarrow> string list \<Rightarrow> string list" where
  "tableElementHeaders i [] headers = headers"
| "tableElementHeaders i (el # els) headers =
     (let text = trim el;
          text = (if text = [] then ''Column'' @ showNat i else text);
          text = (if text \<in> set headers then text @ ''_'' @ showNat i else text)
      in tableElementHeaders (i + 1) els (headers @ [text]))"

text \<open>
  The rows of \<^verbatim>\<open>parseTableElement\<close>: the inner loop sets \<^verbatim>\<open>rowData[headers[j]]\<close> for
  \<^verbatim>\<open>j < headers.length\<close>, and the outer loop pushes the rows that have a property.
\<close>

fun tableElementBody :: "string list \<Rightarrow> row list \<Rightarrow> TableRow list \<Rightarrow> TableRow list" where
  "tableElementBody headers [] rows = rows"
| "tableElementBody headers (r # rs) rows =
     (let rowData = extractCells headers 0 (find_td r) [] in
      if length rowData > 0 then tableElementBody headers rs (rows @ [rowData])
      else tableElementBody headers rs rows)"

definition parseTableElement :: "table \<Rightarrow> TableRow list" where
  "parseTableElement tbl =
     (let headers = tableElementHeaders 0 (map cellText (headerRow tbl)) []
      in tableElementBody headers (bodyRows tbl) [])"

text \<open>\<^verbatim>\<open>parseTable\<close> of the utilities, on the loaded document.\<close>

definition parseTable :: "document \<Rightarrow> string \<Rightarrow> int \<Rightarrow> error + TableRow list" where
  "parseTable doc selector tableIndex =
     (let tables = doc selector in
      if length tables = 0 then Inl (NoTablesMatching selector)
      else if int (length tables) \<le> tableIndex
      then Inl (IndexOutOfBounds tableIndex (length tables))
      else Inr (parseTableElement (concat (eq_sel tables tableIndex))))"

text \<open>
  The header loop of \<^verbatim>\<open>parseTrends\<close> over \<^verbatim>\<open>table.find('thead tr th, thead tr td')\<close>:
  \<^verbatim>\<open>headers.push($(el).text().trim() || `Column${i}`)\<close>.
\<close>

fun trendsHeaders :: "nat \<Rightarrow> string list \<Rightarrow> string list \<Rightarrow> string list" where
  "trendsHeaders i [] headers = headers"
| "trendsHeaders i (el # els) headers =
     (let text = trim el;
          text = (if text = [] then ''Column'' @ showNat i else text)
      in trendsHeaders (i + 1) els (headers @ [text]))"


text \<open>The cells that the two loops run over: all the cells of the rows of the \<^verbatim>\<open>thead\<close>.\<close>

definition theadCells :: "table \<Rightarrow> string list" where
  "theadCells tbl = map cellText (concat (find_tr (find_thead tbl)))"

text \<open>
  \<^verbatim>\<open>parseTrends\<close>: the rows extracted under the derived headers, without the last five
  (\<^verbatim>\<open>rows.slice(0, -5)\<close>).
\<close>

definition parseTrends :: "document \<Rightarrow> error + TableRow list" where
  "parseTrends doc =
     (case getTable doc 0 of
        Inl e \<Rightarrow> Inl e
      | Inr tbl \<Rightarrow>
          let headers = trendsHeaders 0 (theadCells tbl) [];
              rows = extractRows tbl headers
          in Inr (take (length rows - 5) rows))"




section \<open>Schema selection\<close>

text \<open>
  The column lists that \<^verbatim>\<open>parseEfficiency\<close>, \<^verbatim>\<open>parseHeight\<close> and \<^verbatim>\<open>parseSchedule\<close> select.
  The season is \<open>None\<close> for \<^verbatim>\<open>null\<close>; the test \<^verbatim>\<open>season && season < 2010\<close> fails for
  \<^verbatim>\<open>null\<close> and for \<^verbatim>\<open>0\<close>, which are both falsy.
\<close>

definition efficiencyColumns :: "int option \<Rightarrow> string list" where
  "efficiencyColumns season =
     (if (case season of None \<Rightarrow> False | Some y \<Rightarrow> y \<noteq> 0 \<and> y < 2010)
      then [''Team'', ''Conference'',
            ''Tempo-Adj'', ''Tempo-Adj.Rank'', ''Tempo-Raw'', ''Tempo-Raw.Rank'',
            ''Off.Efficiency-Adj'', ''Off.Efficiency-Adj.Rank'',
            ''Off.Efficiency-Raw'', ''Off.Efficiency-Raw.Rank'',
            ''Def.Efficiency-Adj'', ''Def.Efficiency-Adj.Rank'',
            ''Def.Efficiency-Raw'', ''Def.Efficiency-Raw.Rank'']
      else [''Team'', ''Conference'',
            ''Tempo-Adj'', ''Tempo-Adj.Rank'', ''Tempo-Raw'', ''Tempo-Raw.Rank'',
            ''Avg.Poss.Length-Off'', ''Avg.Poss.Length-Off.Rank'',
            ''Avg.Poss.Length-Def'', ''Avg.Poss.Length-Def.Rank'',
            ''Off.Efficiency-Adj'', ''Off.Efficiency-Adj.Rank'',
            ''Off.Efficiency-Raw'', ''Off.Efficiency-Raw.Rank'',
            ''Def.Efficiency-Adj'', ''Def.Efficiency-Adj.Rank'',
            ''Def.Efficiency-Raw'', ''Def.Efficiency-Raw.Rank''])"

definition heightColumns :: "int option \<Rightarrow> string list" where
  "heightColumns season =
     (if (case season of None \<Rightarrow> False | Some y \<Rightarrow> y \<noteq> 0 \<and> y < 2008)
      then [''Team'', ''Conference'',
            ''AvgHgt'', ''AvgHgt.Rank'', ''EffHgt'', ''EffHgt.Rank'',
            ''C-Hgt'', ''C-Hgt.Rank'', ''PF-Hgt'', ''PF-Hgt.Rank'',
            ''SF-Hgt'', ''SF-Hgt.Rank'', ''SG-Hgt'', ''SG-Hgt.Rank'',
            ''PG-Hgt'', ''PG-Hgt.Rank'',
            ''Experience'', ''Experience.Rank'', ''Bench'', ''Bench.Rank'']
      else [''Team'', ''Conference'',
            ''AvgHgt'', ''AvgHgt.Rank'', ''EffHgt'', ''EffHgt.Rank'',
            ''C-Hgt'', ''C-Hgt.Rank'', ''PF-Hgt'', ''PF-Hgt.Rank'',
            ''SF-Hgt'', ''SF-Hgt.Rank'', ''SG-Hgt'', ''SG-Hgt.Rank'',
            ''PG-Hgt'', ''PG-Hgt.Rank'',
            ''Experience'', ''Experience.Rank'', ''Bench'', ''Bench.Rank'',
            ''Continuity'', ''Continuity.Rank''])"

definition scheduleColumns :: "int option \<Rightarrow> string list" where
  "scheduleColumns season =
     (if (case season of None \<Rightarrow> False | Some y \<Rightarrow> y \<noteq> 0 \<and> y < 2010)
      then [''Date'', ''Opponent Rank'', ''Opponent Name'', ''Result'',
            ''Possession Number'', ''A'', ''Location'', ''Record'', ''Conference'', ''B'']
      else [''Date'', ''Team Rank'', ''Opponent Rank'', ''Opponent Name'', ''Result'',
            ''Possession Number'', ''A'', ''Location'', ''Record'', ''Conference'', ''B''])"

section \<open>Properties of the game-string parser\<close>

subsection \<open>Trimming\<close>

lemma dropWhileEnd_snoc:
  "dropWhileEnd P (s @ [c]) = (if P c then dropWhileEnd P s else s @ [c])"
  by (simp add: dropWhileEnd_def)

lemma dropWhileEnd_id: "s \<noteq> [] \<Longrightarrow> \<not> P (last s) \<Longrightarrow> dropWhileEnd P s = s"
  by (cases s rule: rev_cases) (simp_all add: dropWhileEnd_snoc)

lemma dropWhile_id: "s \<noteq> [] \<Longrightarrow> \<not> P (hd s) \<Longrightarrow> dropWhile P s = s"
  by (cases s) simp_all

lemma trim_id:
  "s \<noteq> [] \<Longrightarrow> \<not> isWhiteSpace (hd s) \<Longrightarrow> \<not> isWhiteSpace (last s) \<Longrightarrow> trim s = s"
  by (simp add: trim_def dropWhile_id dropWhileEnd_id)

lemma trim_snoc_space: "isWhiteSpace c \<Longrightarrow> trim (s @ [c]) = trim s"
proof (cases "\<forall>x\<in>set s. isWhiteSpace x")
  case True
  assume "isWhiteSpace c"
  with True have a: "dropWhile isWhiteSpace (s @ [c]) = []" and b: "dropWhile isWhiteSpace s = []"
    by simp_all
  show ?thesis unfolding trim_def a b ..
next
  case False
  assume c: "isWhiteSpace c"
  from False obtain x where "x \<in> set s" "\<not> isWhiteSpace x" by blast
  then have "dropWhile isWhiteSpace (s @ [c]) = dropWhile isWhiteSpace s @ [c]"
    by (rule dropWhile_append1)
  with c show ?thesis by (simp add: trim_def dropWhileEnd_snoc)
qed

subsection \<open>Joining and splitting tokens\<close>

lemma isToken_nonempty: "isToken t \<Longrightarrow> t \<noteq> []"
  by (simp add: isToken_def)

lemma isToken_hd: "isToken t \<Longrightarrow> \<not> isWhiteSpace (hd t)"
  by (cases t) (simp_all add: isToken_def)

lemma isToken_last: "isToken t \<Longrightarrow> \<not> isWhiteSpace (last t)"
  by (cases t rule: rev_cases) (simp_all add: isToken_def)

lemma isToken_all: "isToken t \<Longrightarrow> c \<in> set t \<Longrightarrow> \<not> isWhiteSpace c"
  by (simp add: isToken_def list_all_iff)

lemma join_nonempty: "isToken t \<Longrightarrow> join sep (t # ts) \<noteq> []"
  by (cases ts) (simp_all add: isToken_def)

lemma hd_join: "isToken t \<Longrightarrow> hd (join sep (t # ts)) = hd t"
  by (cases ts) (simp_all add: isToken_def)

lemma last_join:
  "list_all isToken (t # ts) \<Longrightarrow> last (join sep (t # ts)) = last (last (t # ts))"
proof (induction ts arbitrary: t)
  case Nil
  then show ?case by simp
next
  case (Cons u us)
  then have "join sep (u # us) \<noteq> []" by (simp add: join_nonempty)
  with Cons show ?case by simp
qed

lemma trim_join:
  assumes "list_all isToken (t # ts)"
  shows "trim (join sep (t # ts)) = join sep (t # ts)"
proof (rule trim_id)
  from assms show "join sep (t # ts) \<noteq> []" by (simp add: join_nonempty)
  from assms show "\<not> isWhiteSpace (hd (join sep (t # ts)))"
    by (simp add: hd_join isToken_hd)
  from assms have "isToken (last (t # ts))"
    by (metis last_in_set list.distinct(1) list_all_iff)
  with assms show "\<not> isWhiteSpace (last (join sep (t # ts)))"
    by (simp only: last_join isToken_last not_False_eq_True)
qed

lemma split_ws_token:
  "\<forall>c\<in>set t. \<not> isWhiteSpace c \<Longrightarrow> split_ws acc (t @ r) = split_ws (acc @ t) r"
  by (induction t arbitrary: acc) simp_all

lemma split_ws_join:
  "list_all isToken (t # ts) \<Longrightarrow> split_ws acc (join '' '' (t # ts)) = (acc @ t) # ts"
proof (induction ts arbitrary: t acc)
  case Nil
  then have "split_ws acc (t @ []) = split_ws (acc @ t) []"
    by (intro split_ws_token) (simp add: isToken_def list_all_iff)
  then show ?case by simp
next
  case (Cons u us)
  then have t: "\<forall>c\<in>set t. \<not> isWhiteSpace c" and u: "isToken u" and rest: "list_all isToken (u # us)"
    by (simp_all add: isToken_def list_all_iff)
  have sp: "isWhiteSpace CHR '' ''" by (simp add: isWhiteSpace_def)
  from u have "dropWhile isWhiteSpace (join '' '' (u # us)) = join '' '' (u # us)"
    by (intro dropWhile_id) (simp_all add: join_nonempty hd_join isToken_hd)
  with sp have "split_ws (acc @ t) ('' '' @ join '' '' (u # us)) = (acc @ t) # split_ws [] (join '' '' (u # us))"
    by simp
  moreover have "split_ws acc (t @ '' '' @ join '' '' (u # us)) = split_ws (acc @ t) ('' '' @ join '' '' (u # us))"
    using t by (rule split_ws_token)
  ultimately show ?case using Cons.IH[OF rest, of "[]"] by simp
qed

subsection \<open>Splitting at a separator\<close>

lemma split_js_no_occurrence:
  "sep \<noteq> [] \<Longrightarrow> \<not> occurs sep a \<Longrightarrow> split_js sep acc a = [acc @ a]"
  by (induction a arbitrary: acc) simp_all

lemma split_js_comma:
  "\<not> occurs '', '' a \<Longrightarrow> split_js '', '' acc (a @ '', '' @ b) = (acc @ a) # split_js '', '' [] b"
proof (induction a arbitrary: acc)
  case Nil
  then show ?case by simp
next
  case (Cons c cs)
  then have "take 2 (c # cs) \<noteq> '', ''" and "\<not> occurs '', '' cs" by simp_all
  then have "take 2 (c # cs @ '', '' @ b) \<noteq> '', ''" by (cases cs) auto
  with Cons.IH[OF \<open>\<not> occurs '', '' cs\<close>, of "acc @ [c]"] show ?case by simp
qed

lemma split_js_two_sides:
  "\<not> occurs '', '' a \<Longrightarrow> \<not> occurs '', '' b \<Longrightarrow> split_js '', '' [] (a @ '', '' @ b) = [a, b]"
proof -
  assume a: "\<not> occurs '', '' a" and b: "\<not> occurs '', '' b"
  have "split_js '', '' [] (a @ '', '' @ b) = ([] @ a) # split_js '', '' [] b"
    using a by (rule split_js_comma)
  also have "split_js '', '' [] b = [[] @ b]"
    using b by (intro split_js_no_occurrence) simp
  finally show ?thesis by simp
qed

subsection \<open>Decimal numerals\<close>

lemma isDigit_digitValue: "isDigit c \<Longrightarrow> \<exists>d<10. digitValue c = Some d"
  by (auto simp: isDigit_def digitValue_def)

lemma isDigit_radix10: "isDigit c \<Longrightarrow> isRadixDigit 10 c"
  using isDigit_digitValue[of c] by (auto simp: isRadixDigit_def)

lemma isDigit_not_space: "isDigit c \<Longrightarrow> \<not> isWhiteSpace c"
  by (auto simp: isDigit_def isWhiteSpace_def)

lemma isDigit_not_sign: "isDigit c \<Longrightarrow> c \<noteq> CHR ''-'' \<and> c \<noteq> CHR ''+'' \<and> c \<noteq> CHR ''x'' \<and> c \<noteq> CHR ''X'' \<and> c \<noteq> CHR '')''"
  by (auto simp: isDigit_def)

lemma decimal_fold_bounds:
  "list_all isDigit ds \<Longrightarrow> 0 \<le> v \<Longrightarrow>
     0 \<le> foldl (\<lambda>v c. v * 10 + int (case digitValue c of None \<Rightarrow> 0 | Some d \<Rightarrow> d)) v ds \<and>
     foldl (\<lambda>v c. v * 10 + int (case digitValue c of None \<Rightarrow> 0 | Some d \<Rightarrow> d)) v ds
       < (v + 1) * 10 ^ length ds"
proof (induction ds arbitrary: v)
  case Nil
  then show ?case by simp
next
  case (Cons c cs)
  from Cons.prems obtain d where d: "d < 10" "digitValue c = Some d"
    using isDigit_digitValue[of c] by auto
  let ?v = "v * 10 + int d"
  from Cons.prems have "0 \<le> ?v" by simp
  with Cons.IH[of ?v] Cons.prems
  have ih: "0 \<le> foldl (\<lambda>v c. v * 10 + int (case digitValue c of None \<Rightarrow> 0 | Some d \<Rightarrow> d)) ?v cs"
    "foldl (\<lambda>v c. v * 10 + int (case digitValue c of None \<Rightarrow> 0 | Some d \<Rightarrow> d)) ?v cs < (?v + 1) * 10 ^ length cs"
    by simp_all
  from d have "?v + 1 \<le> (v + 1) * 10" by simp
  then have "(?v + 1) * 10 ^ length cs \<le> ((v + 1) * 10) * 10 ^ length cs"
    by (rule mult_right_mono) simp
  with ih(2) have "foldl (\<lambda>v c. v * 10 + int (case digitValue c of None \<Rightarrow> 0 | Some d \<Rightarrow> d)) ?v cs
      < ((v + 1) * 10) * 10 ^ length cs"
    by (rule less_le_trans)
  with ih(1) d show ?case by (simp add: algebra_simps)
qed

lemma digitsValue_bounds:
  "list_all isDigit ds \<Longrightarrow> 0 \<le> digitsValue 10 ds \<and> digitsValue 10 ds < 10 ^ length ds"
  using decimal_fold_bounds[of ds 0] by (simp add: digitsValue_def)

lemma isScore_value: "isScore t \<Longrightarrow> 0 \<le> digitsValue 10 t \<and> digitsValue 10 t < 10 ^ 15"
proof -
  assume s: "isScore t"
  then have b: "0 \<le> digitsValue 10 t" "digitsValue 10 t < 10 ^ length t"
    using digitsValue_bounds[of t] by (simp_all add: isScore_def)
  from s have "(10::int) ^ length t \<le> 10 ^ 15"
    by (intro power_increasing) (simp_all add: isScore_def)
  with b show ?thesis by simp
qed

lemma isScore_token: "isScore t \<Longrightarrow> isToken t"
  by (auto simp: isScore_def isToken_def list_all_iff isDigit_not_space)

lemma parseInt_score: "isScore t \<Longrightarrow> parseInt t = Num (digitsValue 10 t)"
proof -
  assume s: "isScore t"
  then obtain c cs where t: "t = c # cs" and c: "isDigit c" and cs: "list_all isDigit cs"
    by (cases t) (auto simp: isScore_def)
  from c have ws: "\<not> isWhiteSpace c"
    by (simp add: isDigit_not_space)
  from c have sign: "c \<noteq> CHR ''-''" "c \<noteq> CHR ''+''"
    using isDigit_not_sign[of c] by simp_all
  have hex: "take 1 cs \<noteq> ''x''" "take 1 cs \<noteq> ''X''"
    using cs isDigit_not_sign[of "hd cs"] by (cases cs; simp)+
  from s have run: "takeWhile (isRadixDigit 10) (c # cs) = c # cs"
    by (auto simp: t isScore_def list_all_iff isDigit_radix10)
  from isScore_value[OF s] have big: "\<bar>digitsValue 10 (c # cs)\<bar> \<le> 2 ^ 53" by (simp add: t)
  have "parseInt (c # cs) = Num (digitsValue 10 (c # cs))"
    unfolding parseInt_def Let_def using ws sign hex run big
    by (simp add: mk_num_def)
  then show ?thesis by (simp add: t)
qed

lemma actualMOV_scores:
  assumes "isScore w" "isScore l"
  shows "actualMOV (Some w) (Some l) = Some (Num (digitsValue 10 w - digitsValue 10 l))"
proof -
  from assms have ne: "w \<noteq> []" "l \<noteq> []" by (simp_all add: isScore_def)
  from isScore_value[OF assms(1)] isScore_value[OF assms(2)]
  have "\<bar>digitsValue 10 w - digitsValue 10 l\<bar> \<le> 2 ^ 53" by (auto simp: abs_le_iff)
  then show ?thesis
    by (simp add: actualMOV_def ne parseInt_score assms isNaN_def num_sub_def mk_num_def)
qed

lemma otMatch_no_paren: "s \<noteq> [] \<Longrightarrow> last s \<noteq> CHR '')'' \<Longrightarrow> otMatch s = None"
  by (cases s rule: rev_cases) (auto simp: otMatch_def Let_def)

lemma side_tokens:
  "isToken r \<Longrightarrow> list_all isToken n \<Longrightarrow> isScore sc \<Longrightarrow> list_all isToken (r # n @ [sc])"
  by (simp add: isScore_token)

lemma side_parts:
  assumes "isToken r" "list_all isToken n" "isScore sc"
  shows "split_ws [] (trim (side r n sc)) = r # n @ [sc]"
proof -
  have toks: "list_all isToken (r # n @ [sc])" using assms by (rule side_tokens)
  then have "trim (side r n sc) = side r n sc"
    unfolding side_def by (rule trim_join)
  moreover have "split_ws [] (side r n sc) = ([] @ r) # n @ [sc]"
    unfolding side_def using toks by (rule split_ws_join)
  ultimately show ?thesis by simp
qed

lemma side_last:
  assumes "isToken r" "list_all isToken n" "isScore sc"
  shows "side r n sc \<noteq> [] \<and> last (side r n sc) = last sc"
proof -
  have toks: "list_all isToken (r # n @ [sc])" using assms by (rule side_tokens)
  from assms(1) have "side r n sc \<noteq> []" unfolding side_def by (rule join_nonempty)
  moreover from last_join[OF toks, of "'' ''"] have "last (side r n sc) = last sc"
    by (simp add: side_def)
  ultimately show ?thesis by simp
qed

lemma isScore_last: "isScore sc \<Longrightarrow> last sc \<noteq> CHR '')''"
  by (cases sc rule: rev_cases) (auto simp: isScore_def isDigit_not_sign)

text \<open>
  Claim C1. A completed-game string is a winner side and a loser side joined by
  \<^verbatim>\<open>", "\<close>, each side a rank token, one or more name tokens and a score, joined by single
  spaces, with the delimiter \<^verbatim>\<open>", "\<close> occurring nowhere inside a side. For every such
  string \<^verbatim>\<open>parseGameResult\<close> returns the rank, the name tokens joined by single spaces and
  the score of the first side as the winner's and those of the second side as the
  loser's, \<^verbatim>\<open>ActualMOV\<close> is the winner's score minus the loser's as an integer,
  \<^verbatim>\<open>isCompleted\<close> is true and \<^verbatim>\<open>isAway\<close> and \<^verbatim>\<open>isNeutral\<close> are false.
\<close>

theorem parseGameResult_completed:
  assumes w: "isToken wr" "list_all isToken wn" "wn \<noteq> []" "isScore ws"
      and l: "isToken lr" "list_all isToken ln" "ln \<noteq> []" "isScore ls"
      and delim: "\<not> occurs '', '' (side wr wn ws)" "\<not> occurs '', '' (side lr ln ls)"
  shows "parseGameResult (Some (side wr wn ws @ '', '' @ side lr ln ls)) =
     \<lparr>Winner = Some (join '' '' wn), WinnerRank = Some wr, WinnerScore = Some ws,
      Loser = Some (join '' '' ln), LoserRank = Some lr, LoserScore = Some ls,
      OT = None, ActualMOV = Some (Num (digitsValue 10 ws - digitsValue 10 ls)),
      isCompleted = True, isNeutral = False, isAway = False\<rparr>"
proof -
  let ?s = "side wr wn ws @ '', '' @ side lr ln ls"
  have ne: "?s \<noteq> []" by simp
  from side_last[OF l(1,2,4)] have "last ?s = last ls" by simp
  with isScore_last[OF l(4)] have "last ?s \<noteq> CHR '')''" by simp
  with ne have ot: "otMatch ?s = None" by (rule otMatch_no_paren)
  then have proc: "processedStr ?s = ?s" by (simp add: processedStr_def)
  have teams: "split_js '', '' [] ?s = [side wr wn ws, side lr ln ls]"
    using delim by (rule split_js_two_sides)
  have wp: "split_ws [] (trim (side wr wn ws)) = wr # wn @ [ws]"
    using w(1,2,4) by (rule side_parts)
  have lp: "split_ws [] (trim (side lr ln ls)) = lr # ln @ [ls]"
    using l(1,2,4) by (rule side_parts)
  from w(3) have wlen: "3 \<le> length (wr # wn @ [ws])" by (cases wn) simp_all
  from l(3) have llen: "3 \<le> length (lr # ln @ [ls])" by (cases ln) simp_all
  have mov: "actualMOV (Some ws) (Some ls) = Some (Num (digitsValue 10 ws - digitsValue 10 ls))"
    using w(4) l(4) by (rule actualMOV_scores)
  show ?thesis
    unfolding parseGameResult_def Let_def option.case proc teams
    using ne ot wp lp wlen llen mov
    by (simp add: emptyResult_def)
qed

text \<open>The string \<^verbatim>\<open>"233 Rice 77, 273 FIU 70"\<close> of the specification.\<close>

theorem parseGameResult_completed_witness:
  "parseGameResult (Some ''233 Rice 77, 273 FIU 70'') =
     \<lparr>Winner = Some ''Rice'', WinnerRank = Some ''233'', WinnerScore = Some ''77'',
      Loser = Some ''FIU'', LoserRank = Some ''273'', LoserScore = Some ''70'',
      OT = None, ActualMOV = Some (Num 7),
      isCompleted = True, isNeutral = False, isAway = False\<rparr>"
proof -
  have h: "isToken ''233''" "list_all isToken [''Rice'']" "[''Rice''] \<noteq> []" "isScore ''77''"
      "isToken ''273''" "list_all isToken [''FIU'']" "[''FIU''] \<noteq> []" "isScore ''70''"
      "\<not> occurs '', '' (side ''233'' [''Rice''] ''77'')"
      "\<not> occurs '', '' (side ''273'' [''FIU''] ''70'')"
    by (simp_all add: isToken_def isScore_def isWhiteSpace_def isDigit_def side_def)
  have v: "digitsValue 10 ''77'' - digitsValue 10 ''70'' = 7"
    by (simp add: digitsValue_def digitValue_def)
  from parseGameResult_completed[OF h] show ?thesis
    by (simp add: side_def v)
qed

subsection \<open>Strings without a delimiter\<close>

lemma take_eq_prefix: "take (length sep) s = sep \<longleftrightarrow> (\<exists>q. s = sep @ q)"
  by (metis append_eq_conv_conj append_take_drop_id)

lemma occurs_iff: "occurs sep s \<longleftrightarrow> (\<exists>p q. s = p @ sep @ q)"
proof (induction s)
  case Nil
  then show ?case by simp
next
  case (Cons c cs)
  show ?case
  proof
    assume "occurs sep (c # cs)"
    then consider "take (length sep) (c # cs) = sep" | "occurs sep cs" by auto
    then show "\<exists>p q. c # cs = p @ sep @ q"
    proof cases
      case 1
      then obtain q where "c # cs = sep @ q" using take_eq_prefix by blast
      then have "c # cs = [] @ sep @ q" by simp
      then show ?thesis by blast
    next
      case 2
      with Cons.IH obtain p q where "cs = p @ sep @ q" by blast
      then have "c # cs = (c # p) @ sep @ q" by simp
      then show ?thesis by blast
    qed
  next
    assume "\<exists>p q. c # cs = p @ sep @ q"
    then obtain p q where pq: "c # cs = p @ sep @ q" by blast
    show "occurs sep (c # cs)"
    proof (cases p)
      case Nil
      with pq have "take (length sep) (c # cs) = sep" using take_eq_prefix by auto
      then show ?thesis by simp
    next
      case (Cons d ds)
      with pq have "cs = ds @ sep @ q" by simp
      with Cons.IH have "occurs sep cs" by blast
      then show ?thesis by simp
    qed
  qed
qed

lemma occurs_infix: "occurs sep y \<Longrightarrow> occurs sep (u @ y @ v)"
proof -
  assume "occurs sep y"
  then obtain p q where "y = p @ sep @ q" using occurs_iff by blast
  then have "u @ y @ v = (u @ p) @ sep @ (q @ v)" by simp
  then show ?thesis using occurs_iff by blast
qed

lemma dropWhileEnd_prefix: "\<exists>v. s = dropWhileEnd P s @ v"
proof -
  have "rev s = takeWhile P (rev s) @ dropWhile P (rev s)" by simp
  then have "s = rev (dropWhile P (rev s)) @ rev (takeWhile P (rev s))"
    by (metis rev_append rev_rev_ident)
  then show ?thesis unfolding dropWhileEnd_def by blast
qed

lemma trim_infix: "\<exists>u v. s = u @ trim s @ v"
proof -
  obtain v where "dropWhile isWhiteSpace s = trim s @ v"
    unfolding trim_def using dropWhileEnd_prefix by blast
  then have "s = takeWhile isWhiteSpace s @ trim s @ v"
    by (metis takeWhile_dropWhile_id)
  then show ?thesis by blast
qed

lemma removeOT_prefix: "\<exists>v. s = removeOT s @ v"
proof (cases "otMatch (dropWhileEnd isWhiteSpace s)")
  case None
  then have "s = removeOT s @ []" by (simp add: removeOT_def)
  then show ?thesis by blast
next
  case (Some ot)
  let ?t = "dropWhileEnd isWhiteSpace s"
  let ?k = "length ?t - (length ot + 2)"
  obtain v1 where v1: "s = ?t @ v1" using dropWhileEnd_prefix by blast
  obtain v2 where v2: "take ?k ?t = dropWhileEnd isWhiteSpace (take ?k ?t) @ v2"
    using dropWhileEnd_prefix by blast
  have "?t = take ?k ?t @ drop ?k ?t" by simp
  with v2 have "?t = dropWhileEnd isWhiteSpace (take ?k ?t) @ v2 @ drop ?k ?t"
    by (metis append.assoc)
  with v1 have "s = dropWhileEnd isWhiteSpace (take ?k ?t) @ (v2 @ drop ?k ?t @ v1)"
    by (metis append.assoc)
  with Some show ?thesis by (auto simp: removeOT_def Let_def)
qed

lemma processedStr_infix: "\<exists>u v. s = u @ processedStr s @ v"
proof (cases "otMatch s")
  case None
  then have "s = [] @ processedStr s @ []" by (simp add: processedStr_def)
  then show ?thesis by blast
next
  case (Some ot)
  obtain u v where uv: "removeOT s = u @ trim (removeOT s) @ v" using trim_infix by blast
  obtain w where w: "s = removeOT s @ w" using removeOT_prefix by blast
  from uv w have "s = u @ trim (removeOT s) @ (v @ w)" by (metis append.assoc)
  with Some show ?thesis by (auto simp: processedStr_def)
qed

lemma processedStr_occurs: "occurs sep (processedStr s) \<Longrightarrow> occurs sep s"
  using processedStr_infix[of s] occurs_infix[of sep "processedStr s"] by metis

lemma split_js_one_part:
  "sep \<noteq> [] \<Longrightarrow> \<not> occurs sep s \<Longrightarrow> split_js sep [] (processedStr s) = [processedStr s]"
  using split_js_no_occurrence[of sep "processedStr s" "[]"] processedStr_occurs[of sep s]
  by auto

lemma parseGameResult_unrecognized:
  assumes "\<not> occurs '', '' s" "\<not> occurs '' at '' s" "\<not> occurs '' vs. '' s"
  shows "parseGameResult (Some s) = emptyResult\<lparr>OT := otMatch s\<rparr>"
proof (cases "s = []")
  case True
  then show ?thesis by (simp add: parseGameResult_def emptyResult_def otMatch_def)
next
  case False
  have a: "split_js '', '' [] (processedStr s) = [processedStr s]"
    using assms(1) by (intro split_js_one_part) simp_all
  have b: "split_js '' at '' [] (processedStr s) = [processedStr s]"
    using assms(2) by (intro split_js_one_part) simp_all
  have c: "split_js '' vs. '' [] (processedStr s) = [processedStr s]"
    using assms(3) by (intro split_js_one_part) simp_all
  show ?thesis
    unfolding parseGameResult_def Let_def option.case a b c using False
    by (simp add: emptyResult_def split: option.splits)
qed

text \<open>
  Claim C3, amended. For \<^verbatim>\<open>null\<close> and for the empty string \<^verbatim>\<open>parseGameResult\<close> returns
  the all-null result. For a string that contains none of the delimiters \<^verbatim>\<open>", "\<close>,
  \<^verbatim>\<open>" at "\<close> and \<^verbatim>\<open>" vs. "\<close> it returns the all-null result except for \<^verbatim>\<open>OT\<close>, which holds
  the overtime marker when the string ends with one and is null otherwise. The function
  has no error result, so it never throws.
\<close>

theorem parseGameResult_no_delimiter:
  "parseGameResult None = emptyResult \<and>
   parseGameResult (Some []) = emptyResult \<and>
   (\<not> occurs '', '' s \<and> \<not> occurs '' at '' s \<and> \<not> occurs '' vs. '' s \<longrightarrow>
      parseGameResult (Some s) = emptyResult\<lparr>OT := otMatch s\<rparr>)"
  using parseGameResult_unrecognized[of s] by (simp add: parseGameResult_def)

theorem parseGameResult_no_delimiter_witness:
  "\<not> occurs '', '' ''some random text'' \<and> \<not> occurs '' at '' ''some random text'' \<and>
   \<not> occurs '' vs. '' ''some random text'' \<and>
   parseGameResult (Some ''some random text'') = emptyResult"
  using parseGameResult_no_delimiter[of "''some random text''"]
  by (simp add: otMatch_def emptyResult_def)

text \<open>
  The claim as stated asks for a null \<^verbatim>\<open>OT\<close>; the string \<^verbatim>\<open>"Duke (OT)"\<close> contains no
  delimiter and its result has \<^verbatim>\<open>OT\<close> set.
\<close>

theorem parseGameResult_no_delimiter_counterexample:
  "\<not> occurs '', '' ''Duke (OT)'' \<and> \<not> occurs '' at '' ''Duke (OT)'' \<and>
   \<not> occurs '' vs. '' ''Duke (OT)'' \<and>
   OT (parseGameResult (Some ''Duke (OT)'')) = Some ''OT'' \<and>
   parseGameResult (Some ''Duke (OT)'') \<noteq> emptyResult"
  by code_simp

text \<open>
  Claim C2, amended. When the split of the processed string on \<^verbatim>\<open>", "\<close> yields exactly
  two parts, the string is classified as a completed game whatever the token counts, and
  the later delimiters are not tried: \<^verbatim>\<open>isCompleted\<close> is true and \<^verbatim>\<open>isAway\<close> and
  \<^verbatim>\<open>isNeutral\<close> are false. The test for at least 3 tokens decides for each side on its own
  whether its rank, score and name are filled or stay null.
\<close>

theorem parseGameResult_comma_branch:
  assumes "s \<noteq> []" and "length (split_js '', '' [] (processedStr s)) = 2"
  defines "r \<equiv> parseGameResult (Some s)"
      and "winnerParts \<equiv> split_ws [] (trim (split_js '', '' [] (processedStr s) ! 0))"
      and "loserParts \<equiv> split_ws [] (trim (split_js '', '' [] (processedStr s) ! 1))"
  shows "isCompleted r \<and> \<not> isAway r \<and> \<not> isNeutral r \<and>
     (if 3 \<le> length winnerParts
      then WinnerRank r = Some (hd winnerParts) \<and> WinnerScore r = Some (last winnerParts) \<and>
           Winner r = Some (join '' '' (butlast (tl winnerParts)))
      else WinnerRank r = None \<and> WinnerScore r = None \<and> Winner r = None) \<and>
     (if 3 \<le> length loserParts
      then LoserRank r = Some (hd loserParts) \<and> LoserScore r = Some (last loserParts) \<and>
           Loser r = Some (join '' '' (butlast (tl loserParts)))
      else LoserRank r = None \<and> LoserScore r = None \<and> Loser r = None)"
  using assms(1,2) unfolding r_def winnerParts_def loserParts_def
  by (simp add: parseGameResult_def emptyResult_def Let_def split: option.splits)

theorem parseGameResult_comma_branch_witness:
  "isCompleted (parseGameResult (Some ''Duke, 5 UNC 70'')) \<and>
   Winner (parseGameResult (Some ''Duke, 5 UNC 70'')) = None \<and>
   Loser (parseGameResult (Some ''Duke, 5 UNC 70'')) = Some ''UNC''"
proof -
  have p: "processedStr ''Duke, 5 UNC 70'' = ''Duke, 5 UNC 70''"
    by (simp add: processedStr_def otMatch_def)
  have h: "''Duke, 5 UNC 70'' \<noteq> []" "length (split_js '', '' [] (processedStr ''Duke, 5 UNC 70'')) = 2"
    by (simp_all add: p)
  have t: "trim ''Duke'' = ''Duke''" "trim ''5 UNC 70'' = ''5 UNC 70''"
    by (simp_all add: trim_def dropWhileEnd_def isWhiteSpace_def)
  from parseGameResult_comma_branch[OF h] show ?thesis
    by (simp add: p t isWhiteSpace_def)
qed

text \<open>
  The claim as stated fails at \<^verbatim>\<open>"10 Duke at 15 UNC, OT"\<close>: the split on \<^verbatim>\<open>", "\<close> yields two
  parts, the second has one token, and a split on \<^verbatim>\<open>" at "\<close> would yield two parts, yet
  the result is a completed game and not an away game.
\<close>

theorem parseGameResult_comma_branch_counterexample:
  "length (split_js '', '' [] ''10 Duke at 15 UNC, OT'') = 2 \<and>
   length (split_ws [] (trim ''OT'')) < 3 \<and>
   length (split_js '' at '' [] ''10 Duke at 15 UNC, OT'') = 2 \<and>
   isCompleted (parseGameResult (Some ''10 Duke at 15 UNC, OT'')) \<and>
   \<not> isAway (parseGameResult (Some ''10 Duke at 15 UNC, OT''))"
  by code_simp

text \<open>
  Claim C10. For every input, at most one of the flags \<^verbatim>\<open>isCompleted\<close>, \<^verbatim>\<open>isAway\<close> and
  \<^verbatim>\<open>isNeutral\<close> of the result of \<^verbatim>\<open>parseGameResult\<close> is true; none is true for \<^verbatim>\<open>null\<close>,
  for the empty string and for a string without any of the three delimiters.
\<close>

theorem parseGameResult_one_kind:
  "length (filter id [isCompleted (parseGameResult g), isAway (parseGameResult g),
                      isNeutral (parseGameResult g)]) \<le> 1 \<and>
   filter id [isCompleted (parseGameResult None), isAway (parseGameResult None),
              isNeutral (parseGameResult None)] = [] \<and>
   filter id [isCompleted (parseGameResult (Some [])), isAway (parseGameResult (Some [])),
              isNeutral (parseGameResult (Some []))] = [] \<and>
   (\<not> occurs '', '' s \<and> \<not> occurs '' at '' s \<and> \<not> occurs '' vs. '' s \<longrightarrow>
      filter id [isCompleted (parseGameResult (Some s)), isAway (parseGameResult (Some s)),
                 isNeutral (parseGameResult (Some s))] = [])"
proof -
  have "length (filter id [isCompleted (parseGameResult g), isAway (parseGameResult g),
                      isNeutral (parseGameResult g)]) \<le> 1"
    by (simp add: parseGameResult_def emptyResult_def Let_def split: option.splits)
  moreover have "parseGameResult None = emptyResult" "parseGameResult (Some []) = emptyResult"
    by (simp_all add: parseGameResult_def)
  ultimately show ?thesis
    using parseGameResult_unrecognized[of s] by (simp add: emptyResult_def)
qed

theorem parseGameResult_one_kind_witness:
  "length (filter id [isCompleted (parseGameResult (Some ''10 Duke at 15 UNC'')),
                      isAway (parseGameResult (Some ''10 Duke at 15 UNC'')),
                      isNeutral (parseGameResult (Some ''10 Duke at 15 UNC''))]) \<le> 1 \<and>
   \<not> occurs '', '' ''TBD'' \<and> \<not> occurs '' at '' ''TBD'' \<and> \<not> occurs '' vs. '' ''TBD'' \<and>
   filter id [isCompleted (parseGameResult (Some ''TBD'')), isAway (parseGameResult (Some ''TBD'')),
              isNeutral (parseGameResult (Some ''TBD''))] = []"
  using parseGameResult_one_kind[of "Some ''10 Duke at 15 UNC''" "''TBD''"]
  by simp

section \<open>Properties of the seed helpers\<close>

lemma filter_nondigits_name_seed:
  "list_all (\<lambda>c. \<not> isDigit c) name \<Longrightarrow> list_all isDigit seed \<Longrightarrow>
     filter (\<lambda>c. \<not> isDigit c) (name @ '' '' @ seed) = name @ '' ''"
  by (simp add: list_all_iff isDigit_def)

lemma dropWhile_nondigits_name_seed:
  "list_all (\<lambda>c. \<not> isDigit c) name \<Longrightarrow>
     dropWhile (\<lambda>c. \<not> isDigit c) (name @ '' '' @ seed) = dropWhile (\<lambda>c. \<not> isDigit c) seed"
  by (simp add: list_all_iff isDigit_def)

text \<open>
  Claim C9. For every team string \<^verbatim>\<open>name seed\<close> made of a name without digits, one space
  and a non-empty run of digits, \<^verbatim>\<open>extractSeed\<close> returns the run of digits and
  \<^verbatim>\<open>stripSeed\<close> returns the name, trimmed; in particular \<^verbatim>\<open>extractSeed("Duke 1")\<close> is
  \<^verbatim>\<open>"1"\<close> and \<^verbatim>\<open>stripSeed("Duke 1")\<close> is \<^verbatim>\<open>"Duke"\<close>.
\<close>

theorem seed_round_trip:
  assumes "list_all (\<lambda>c. \<not> isDigit c) name" and "seed \<noteq> []" and "list_all isDigit seed"
  shows "extractSeed (Some (name @ '' '' @ seed)) = Some seed \<and>
         stripSeed (Some (name @ '' '' @ seed)) = trim name \<and>
         extractSeed (Some ''Duke 1'') = Some ''1'' \<and>
         stripSeed (Some ''Duke 1'') = ''Duke''"
proof -
  from assms(2,3) obtain d ds where seed: "seed = d # ds" and d: "isDigit d"
    by (cases seed) simp_all
  have "dropWhile (\<lambda>c. \<not> isDigit c) (name @ '' '' @ seed) = dropWhile (\<lambda>c. \<not> isDigit c) seed"
    using assms(1) by (rule dropWhile_nondigits_name_seed)
  also have "\<dots> = seed"
    using d by (simp add: seed)
  finally have "dropWhile (\<lambda>c. \<not> isDigit c) (name @ '' '' @ seed) = seed" .
  moreover have "takeWhile isDigit seed = seed"
    using assms(3) by (simp add: list_all_iff)
  ultimately have ex: "extractSeed (Some (name @ '' '' @ seed)) = Some seed"
    using assms(2) by (simp add: extractSeed_def Let_def)
  have sp: "isWhiteSpace CHR '' ''" by (simp add: isWhiteSpace_def)
  have "filter (\<lambda>c. \<not> isDigit c) (name @ '' '' @ seed) = name @ '' ''"
    using assms(1,3) by (rule filter_nondigits_name_seed)
  moreover have "trim (name @ '' '') = trim name"
    using sp by (rule trim_snoc_space)
  ultimately have st: "stripSeed (Some (name @ '' '' @ seed)) = trim name"
    by (simp add: stripSeed_def)
  have "extractSeed (Some ''Duke 1'') = Some ''1''"
    by (simp add: extractSeed_def isDigit_def)
  moreover have "stripSeed (Some ''Duke 1'') = ''Duke''"
    by (simp add: stripSeed_def isDigit_def trim_def dropWhileEnd_def isWhiteSpace_def)
  ultimately show ?thesis using ex st by simp
qed

theorem seed_round_trip_witness:
  "extractSeed (Some ''Some Team 14'') = Some ''14'' \<and> stripSeed (Some ''Some Team 14'') = ''Some Team''"
proof -
  have h: "list_all (\<lambda>c. \<not> isDigit c) ''Some Team''" "''14'' \<noteq> []" "list_all isDigit ''14''"
    by (simp_all add: isDigit_def)
  have t: "trim ''Some Team'' = ''Some Team''"
    by (simp add: trim_def dropWhileEnd_def isWhiteSpace_def)
  from seed_round_trip[OF h] show ?thesis by (simp add: t)
qed

section \<open>Properties of the table locator\<close>

text \<open>
  Claim C4. \<^verbatim>\<open>getTable\<close> and \<^verbatim>\<open>parseTable\<close> fail exactly when no table matches or the
  index is not below the number of matches, and in just two ways: with the not-found
  error, which is thrown only for zero matches, and with the out-of-bounds error, which
  carries the number of matches. So the error of a failed call determines the number of
  tables that matched.
\<close>

theorem table_locator_failures:
  "((\<exists>e. getTable doc i = Inl e) \<longleftrightarrow>
      length (doc ''table'') = 0 \<or> int (length (doc ''table'')) \<le> i) \<and>
   (getTable doc i = Inl e \<longrightarrow>
      (e = NoTablesFound \<and> length (doc ''table'') = 0) \<or>
      (e = IndexOutOfBounds i (length (doc ''table'')) \<and>
       0 < length (doc ''table'') \<and> int (length (doc ''table'')) \<le> i)) \<and>
   ((\<exists>e. parseTable doc sel i = Inl e) \<longleftrightarrow>
      length (doc sel) = 0 \<or> int (length (doc sel)) \<le> i) \<and>
   (parseTable doc sel i = Inl e \<longrightarrow>
      (e = NoTablesMatching sel \<and> length (doc sel) = 0) \<or>
      (e = IndexOutOfBounds i (length (doc sel)) \<and>
       0 < length (doc sel) \<and> int (length (doc sel)) \<le> i)) \<and>
   (getTable doc i = Inl e \<and> getTable doc' i' = Inl e \<longrightarrow>
      length (doc ''table'') = length (doc' ''table'')) \<and>
   (parseTable doc sel i = Inl e \<and> parseTable doc' sel' i' = Inl e \<longrightarrow>
      length (doc sel) = length (doc' sel'))"
  by (auto simp: getTable_def parseTable_def Let_def split: if_splits)

theorem table_locator_failures_witness:
  "getTable (\<lambda>sel. [[], []]) 5 = Inl (IndexOutOfBounds 5 2) \<and>
   parseTable (\<lambda>sel. []) ''table.x'' 0 = Inl (NoTablesMatching ''table.x'') \<and>
   length ((\<lambda>sel. [[], []]) ''table'' :: table list) = 2"
  using table_locator_failures[where doc = "\<lambda>sel. [[], []]" and i = 5 and e = "IndexOutOfBounds 5 2"
      and sel = "''table''" and doc' = "\<lambda>sel. [[], []]" and i' = 5 and sel' = "''table''"]
    table_locator_failures[where doc = "\<lambda>sel. []" and i = 0 and e = "NoTablesMatching ''table.x''"
      and sel = "''table.x''" and doc' = "\<lambda>sel. []" and i' = 0 and sel' = "''table.x''"]
  by (simp add: getTable_def parseTable_def)

section \<open>Properties of schema selection\<close>

text \<open>
  A season year is a non-zero number. The parsers receive \<^verbatim>\<open>null\<close> when no season is given,
  and the guard \<^verbatim>\<open>season && season < 2010\<close> reads the number 0, which is falsy, as no season
  too, as the callers of the parsers do (\<^verbatim>\<open>season ? parseInt(season) : null\<close>).
\<close>

lemma falsy_season_selects_latest:
  "efficiencyColumns (Some 0) = efficiencyColumns None \<and>
   heightColumns (Some 0) = heightColumns None \<and>
   scheduleColumns (Some 0) = scheduleColumns None"
  by (simp add: efficiencyColumns_def heightColumns_def scheduleColumns_def)

text \<open>
  Claim C7. Schema selection is monotonic in the season year. For each of the three
  endpoints with a year threshold, the column list selected for a year at or above the
  threshold is longer than the one selected for a year below it by the columns added
  there (efficiency 4 at 2010, height 2 at 2008, schedule 1 at 2010), so the length never
  decreases as the year grows, and two years on the same side of the threshold select
  column lists of equal length.
\<close>

theorem schema_selection_monotonic:
  assumes "y \<noteq> 0" and "y' \<noteq> 0"
  shows "(2010 \<le> y \<and> y' < 2010 \<longrightarrow>
      length (efficiencyColumns (Some y)) = length (efficiencyColumns (Some y')) + 4) \<and>
   (2008 \<le> y \<and> y' < 2008 \<longrightarrow>
      length (heightColumns (Some y)) = length (heightColumns (Some y')) + 2) \<and>
   (2010 \<le> y \<and> y' < 2010 \<longrightarrow>
      length (scheduleColumns (Some y)) = length (scheduleColumns (Some y')) + 1) \<and>
   (y' \<le> y \<longrightarrow>
      length (efficiencyColumns (Some y')) \<le> length (efficiencyColumns (Some y)) \<and>
      length (heightColumns (Some y')) \<le> length (heightColumns (Some y)) \<and>
      length (scheduleColumns (Some y')) \<le> length (scheduleColumns (Some y))) \<and>
   ((y < 2010 \<longleftrightarrow> y' < 2010) \<longrightarrow>
      length (efficiencyColumns (Some y)) = length (efficiencyColumns (Some y'))) \<and>
   ((y < 2008 \<longleftrightarrow> y' < 2008) \<longrightarrow>
      length (heightColumns (Some y)) = length (heightColumns (Some y'))) \<and>
   ((y < 2010 \<longleftrightarrow> y' < 2010) \<longrightarrow>
      length (scheduleColumns (Some y)) = length (scheduleColumns (Some y')))"
  using assms by (simp add: efficiencyColumns_def heightColumns_def scheduleColumns_def)

theorem schema_selection_monotonic_witness:
  "length (efficiencyColumns (Some 2010)) = length (efficiencyColumns (Some 2009)) + 4 \<and>
   length (heightColumns (Some 2008)) = length (heightColumns (Some 2007)) + 2 \<and>
   length (scheduleColumns (Some 2010)) = length (scheduleColumns (Some 2009)) + 1 \<and>
   length (efficiencyColumns (Some 1999)) = length (efficiencyColumns (Some 2009)) \<and>
   length (efficiencyColumns (Some 2010)) = length (efficiencyColumns (Some 2025)) \<and>
   length (heightColumns (Some 2007)) \<le> length (heightColumns (Some 2025))"
proof -
  have nz: "(2010::int) \<noteq> 0" "(2009::int) \<noteq> 0" "(2008::int) \<noteq> 0" "(2007::int) \<noteq> 0"
    "(1999::int) \<noteq> 0" "(2025::int) \<noteq> 0"
    by simp_all
  from schema_selection_monotonic[OF nz(1) nz(2)] schema_selection_monotonic[OF nz(3) nz(4)]
    schema_selection_monotonic[OF nz(5) nz(2)] schema_selection_monotonic[OF nz(1) nz(6)]
    schema_selection_monotonic[OF nz(6) nz(4)]
  show ?thesis by simp
qed

section \<open>Properties of the row extractor\<close>

lemma extractCells_zip:
  "extractCells columns j cells rowData =
     foldl (\<lambda>r (k, v). setProperty k (trim v) r) rowData (zip (drop j columns) cells)"
proof (induction cells arbitrary: j rowData)
  case Nil
  then show ?case by simp
next
  case (Cons cell cells)
  show ?case
  proof (cases "j < length columns")
    case True
    then have "drop j columns = columns ! j # drop (j + 1) columns"
      by (simp add: Cons_nth_drop_Suc)
    with True Cons.IH[of "j + 1"] show ?thesis by simp
  next
    case False
    with Cons.IH[of "j + 1" rowData] show ?thesis by simp
  qed
qed

lemma zip_by_index:
  "zip xs ys = map (\<lambda>i. (xs ! i, ys ! i)) [0 ..< min (length xs) (length ys)]"
  by (rule nth_equalityI) simp_all

lemma assignCells_zip:
  "assignCells schema cells = foldl (\<lambda>r (k, v). setProperty k (trim v) r) [] (zip schema cells)"
  unfolding assignCells_def zip_by_index[of schema cells] foldl_map
  by (simp add: min.commute)

lemma extractCells_assignCells: "extractCells columns 0 cells [] = assignCells columns cells"
  by (simp add: extractCells_zip assignCells_zip)

lemma extractBody_filter:
  "extractBody columns rs rows =
     rows @ filter (\<lambda>r. r \<noteq> []) (map (\<lambda>r. assignCells columns (find_td r)) rs)"
proof (induction rs arbitrary: rows)
  case Nil
  then show ?case by simp
next
  case (Cons r rs)
  have "find_td r = [] \<Longrightarrow> assignCells columns (find_td r) = []"
    by (simp add: assignCells_def)
  with Cons.IH show ?case
    by (auto simp: Let_def extractCells_assignCells)
qed

lemma setProperty_keys:
  "fst ` set (setProperty k v obj) \<subseteq> insert k (fst ` set obj)"
  by (simp add: setProperty_def update_keys subset_insertI flip: set_map)

lemma fold_setProperty_keys:
  "fst ` set (foldl (\<lambda>r (k, v). setProperty k (trim v) r) obj kvs) \<subseteq> fst ` set obj \<union> fst ` set kvs"
proof (induction kvs arbitrary: obj)
  case Nil
  then show ?case by simp
next
  case (Cons kv kvs)
  obtain k v where kv: "kv = (k, v)" by (cases kv)
  from Cons.IH[of "setProperty k (trim v) obj"] setProperty_keys[of k "trim v" obj]
  show ?case by (auto simp: kv)
qed

lemma fold_setProperty_lookup:
  "distinct (map fst kvs) \<Longrightarrow> ''__proto__'' \<notin> fst ` set kvs \<Longrightarrow>
     map_of (foldl (\<lambda>r (k, v). setProperty k (trim v) r) obj kvs) key =
       (case map_of kvs key of Some v \<Rightarrow> Some (trim v) | None \<Rightarrow> map_of obj key)"
proof (induction kvs arbitrary: obj)
  case Nil
  then show ?case by simp
next
  case (Cons kv kvs)
  obtain k v where kv: "kv = (k, v)" by (cases kv)
  from Cons.prems have d: "distinct (map fst kvs)" and p: "''__proto__'' \<notin> fst ` set kvs"
    and k: "k \<noteq> ''__proto__''" and fresh: "k \<notin> fst ` set kvs"
    by (auto simp: kv)
  from fresh have none: "map_of kvs k = None"
    by (simp add: map_of_eq_None_iff)
  have "map_of (setProperty k (trim v) obj) = (map_of obj)(k \<mapsto> trim v)"
    using k by (simp add: setProperty_def update_conv')
  with Cons.IH[OF d p, of "setProperty k (trim v) obj"] none show ?case
    by (auto simp: kv split: option.splits)
qed

lemma assignCells_lookup:
  assumes "j < length cells" "j < length columns" "distinct columns" "''__proto__'' \<notin> set columns"
  shows "map_of (assignCells columns cells) (columns ! j) = Some (trim (cells ! j))"
proof -
  let ?n = "min (length columns) (length cells)"
  have z: "zip columns cells = zip (take ?n columns) (take ?n cells)"
    by (rule nth_equalityI) simp_all
  have len: "length (take ?n columns) = length (take ?n cells)" by simp
  have dist: "distinct (take ?n columns)" using assms(3) by (rule distinct_take)
  from assms(1,2) have j: "j < length (take ?n cells)" by simp
  from map_of_zip_nth[OF len dist j] assms(1,2)
  have look: "map_of (zip columns cells) (columns ! j) = Some (cells ! j)"
    by (simp add: z)
  have "distinct (map fst (zip columns cells))"
    using dist len by (simp add: z)
  moreover have "''__proto__'' \<notin> fst ` set (zip columns cells)"
    using assms(4) by (auto dest: set_zip_leftD)
  ultimately show ?thesis
    unfolding assignCells_zip by (simp add: fold_setProperty_lookup look)
qed

lemma assignCells_keys:
  "fst ` set (assignCells columns cells) \<subseteq> set (take (length cells) columns)"
proof -
  have "fst ` set (zip columns cells) \<subseteq> set (take (length cells) columns)"
    by (auto simp: set_zip in_set_conv_nth) (metis length_take min_less_iff_conj nth_take)
  with fold_setProperty_keys[of "[]" "zip columns cells"] show ?thesis
    unfolding assignCells_zip by auto
qed

lemma assignCells_drops_extra_cells:
  "assignCells columns cells = assignCells columns (take (length columns) cells)"
proof -
  have "zip columns cells = zip columns (take (length columns) cells)"
    by (rule nth_equalityI) simp_all
  then show ?thesis by (simp add: assignCells_zip)
qed

lemma find_tbody_nonempty: "find_tbody tbl \<noteq> [] \<longleftrightarrow> (\<exists>rs. Tbody rs \<in> set tbl)"
proof (induction tbl)
  case Nil
  then show ?case by (simp add: find_tbody_def)
next
  case (Cons p ps)
  then show ?case by (cases p) (auto simp: find_tbody_def)
qed

lemma find_tr_parts:
  "find_tr tbl =
     concat (map (\<lambda>p. case p of Thead rs \<Rightarrow> rs | Tbody rs \<Rightarrow> rs | Tfoot rs \<Rightarrow> rs | Tr r \<Rightarrow> [r]) tbl)"
proof (induction tbl)
  case Nil
  then show ?case by (simp add: find_tr_def)
next
  case (Cons p ps)
  then show ?case by (cases p) (simp_all add: find_tr_def)
qed

lemma find_tr_find_tbody:
  "find_tr (find_tbody tbl) =
     concat (map (\<lambda>p. case p of Tbody rs \<Rightarrow> rs | _ \<Rightarrow> []) tbl)"
proof (induction tbl)
  case Nil
  then show ?case by (simp add: find_tr_def find_tbody_def)
next
  case (Cons p ps)
  then show ?case by (cases p) (simp_all add: find_tr_def find_tbody_def)
qed

lemma find_td_cells:
  "find_td r = concat (map (\<lambda>c. case c of Td t \<Rightarrow> [t] | Th t \<Rightarrow> []) r)"
proof (induction r)
  case Nil
  then show ?case by (simp add: find_td_def)
next
  case (Cons c cs)
  then show ?case by (cases c) (simp_all add: find_td_def)
qed

lemma bodyRows_parts:
  "bodyRows tbl =
     (if \<exists>rs. Tbody rs \<in> set tbl
      then concat (map (\<lambda>p. case p of Tbody rs \<Rightarrow> rs | _ \<Rightarrow> []) tbl)
      else drop 1 (concat (map (\<lambda>p. case p of Thead rs \<Rightarrow> rs | Tbody rs \<Rightarrow> rs
                                        | Tfoot rs \<Rightarrow> rs | Tr r \<Rightarrow> [r]) tbl)))"
proof -
  have "length (find_tbody tbl) > 0 \<longleftrightarrow> (\<exists>rs. Tbody rs \<in> set tbl)"
    using find_tbody_nonempty[of tbl] by simp
  then show ?thesis
    unfolding bodyRows_def Let_def find_tr_find_tbody find_tr_parts[of tbl] by simp
qed

text \<open>
  Claim C5. For every table and column-name sequence, \<^verbatim>\<open>extractRows\<close> takes the body rows
  from the \<^verbatim>\<open>tbody\<close> parts of the table when it has one and otherwise all rows of the table
  after the first; from the \<^verbatim>\<open>td\<close> cells of a body row it builds the row by the assignments
  \<^verbatim>\<open>row[schema[j]] = trim(cellText)\<close> for the ordinals below the schema length, cells beyond
  the schema length change nothing, every key of a row is a schema name, and a row without
  a key is left out. When the schema names are distinct (and none is \<^verbatim>\<open>__proto__\<close>, which
  an object does not store), the row maps \<^verbatim>\<open>schema[j]\<close> to the trimmed text of cell \<^verbatim>\<open>j\<close>.
\<close>

theorem extractRows_rows:
  "extractRows tbl columns =
     filter (\<lambda>r. r \<noteq> [])
       (map (\<lambda>r. assignCells columns (concat (map (\<lambda>c. case c of Td t \<Rightarrow> [t] | Th t \<Rightarrow> []) r)))
          (if \<exists>rs. Tbody rs \<in> set tbl
           then concat (map (\<lambda>p. case p of Tbody rs \<Rightarrow> rs | _ \<Rightarrow> []) tbl)
           else drop 1 (concat (map (\<lambda>p. case p of Thead rs \<Rightarrow> rs | Tbody rs \<Rightarrow> rs
                                             | Tfoot rs \<Rightarrow> rs | Tr r \<Rightarrow> [r]) tbl)))) \<and>
   assignCells columns cells = assignCells columns (take (length columns) cells) \<and>
   fst ` set (assignCells columns cells) \<subseteq> set (take (length cells) columns) \<and>
   (j < length cells \<and> j < length columns \<and> distinct columns \<and> ''__proto__'' \<notin> set columns \<longrightarrow>
      map_of (assignCells columns cells) (columns ! j) = Some (trim (cells ! j)))"
proof -
  have "extractRows tbl columns =
     filter (\<lambda>r. r \<noteq> []) (map (\<lambda>r. assignCells columns (find_td r)) (bodyRows tbl))"
    by (simp add: extractRows_def extractBody_filter)
  then have "extractRows tbl columns =
     filter (\<lambda>r. r \<noteq> [])
       (map (\<lambda>r. assignCells columns (concat (map (\<lambda>c. case c of Td t \<Rightarrow> [t] | Th t \<Rightarrow> []) r)))
          (if \<exists>rs. Tbody rs \<in> set tbl
           then concat (map (\<lambda>p. case p of Tbody rs \<Rightarrow> rs | _ \<Rightarrow> []) tbl)
           else drop 1 (concat (map (\<lambda>p. case p of Thead rs \<Rightarrow> rs | Tbody rs \<Rightarrow> rs
                                             | Tfoot rs \<Rightarrow> rs | Tr r \<Rightarrow> [r]) tbl))))"
    unfolding find_td_cells bodyRows_parts .
  moreover note assignCells_drops_extra_cells[of columns cells] assignCells_keys[of columns cells]
  moreover have "j < length cells \<and> j < length columns \<and> distinct columns \<and> ''__proto__'' \<notin> set columns \<longrightarrow>
      map_of (assignCells columns cells) (columns ! j) = Some (trim (cells ! j))"
    using assignCells_lookup[of j cells columns] by blast
  ultimately show ?thesis by blast
qed

text \<open>
  Three tables: one with a \<^verbatim>\<open>thead\<close>, a \<^verbatim>\<open>tbody\<close> and a \<^verbatim>\<open>tfoot\<close>, whose \<^verbatim>\<open>thead\<close> and \<^verbatim>\<open>tfoot\<close>
  rows are not body rows; one with a \<^verbatim>\<open>tbody\<close> only, whose first row is a body row; and
  one without a \<^verbatim>\<open>tbody\<close>, whose first row is not.
\<close>

theorem extractRows_rows_witness:
  "extractRows [Thead [[Td ''h1'', Td ''h2'']],
                Tbody [[Td '' 1 '', Td ''Duke'', Td ''x''], [Th ''Rk'', Th ''Team''], [Td ''2'']],
                Tfoot [[Td ''f'']]]
               [''Rank'', ''Team'']
     = [[(''Rank'', ''1''), (''Team'', ''Duke'')], [(''Rank'', ''2'')]] \<and>
   extractRows [Tbody [[Td ''1'', Td ''Duke''], [Td ''2'', Td ''UNC'']]] [''Rank'', ''Team'']
     = [[(''Rank'', ''1''), (''Team'', ''Duke'')], [(''Rank'', ''2''), (''Team'', ''UNC'')]] \<and>
   extractRows [Tr [Td ''h1'', Td ''h2''], Tr [Td ''1'', Td ''Duke''], Tr [Td ''2'', Td ''UNC'']]
               [''Rank'', ''Team'']
     = [[(''Rank'', ''1''), (''Team'', ''Duke'')], [(''Rank'', ''2''), (''Team'', ''UNC'')]] \<and>
   map_of (assignCells [''Rank'', ''Team''] ['' 1 '', ''Duke'', ''x'']) ''Team'' = Some ''Duke''"
proof -
  have t: "trim '' 1 '' = ''1''" "trim ''Duke'' = ''Duke''" "trim ''2'' = ''2''" "trim ''UNC'' = ''UNC''"
    "trim ''x'' = ''x''" "trim ''1'' = ''1''"
    by (simp_all add: trim_def dropWhileEnd_def isWhiteSpace_def)
  have e: "(\<exists>rs. Tbody rs \<in> set [Thead [[Td ''h1'', Td ''h2'']],
                Tbody [[Td '' 1 '', Td ''Duke'', Td ''x''], [Th ''Rk'', Th ''Team''], [Td ''2'']],
                Tfoot [[Td ''f'']]])"
      "(\<exists>rs. Tbody rs \<in> set [Tbody [[Td ''1'', Td ''Duke''], [Td ''2'', Td ''UNC'']]])"
      "\<not> (\<exists>rs. Tbody rs \<in> set [Tr [Td ''h1'', Td ''h2''], Tr [Td ''1'', Td ''Duke''], Tr [Td ''2'', Td ''UNC'']])"
    by simp_all
  from extractRows_rows[where tbl = "[Thead [[Td ''h1'', Td ''h2'']],
                Tbody [[Td '' 1 '', Td ''Duke'', Td ''x''], [Th ''Rk'', Th ''Team''], [Td ''2'']],
                Tfoot [[Td ''f'']]]"
      and columns = "[''Rank'', ''Team'']" and cells = "['' 1 '', ''Duke'', ''x'']" and j = 1]
    extractRows_rows[where tbl = "[Tbody [[Td ''1'', Td ''Duke''], [Td ''2'', Td ''UNC'']]]"
      and columns = "[''Rank'', ''Team'']" and cells = "[]" and j = 0]
    extractRows_rows[where tbl = "[Tr [Td ''h1'', Td ''h2''], Tr [Td ''1'', Td ''Duke''], Tr [Td ''2'', Td ''UNC'']]"
      and columns = "[''Rank'', ''Team'']" and cells = "[]" and j = 0]
  show ?thesis
    unfolding if_P[OF e(1)] if_P[OF e(2)] if_not_P[OF e(3)]
    by (simp add: assignCells_def setProperty_def t)
qed

section \<open>Properties of the prediction-string parser\<close>

lemma many1_digits:
  "many1 isDigit s = Some (a, r) \<Longrightarrow> a \<noteq> [] \<and> list_all isDigit a"
  by (auto simp: many1_def list_all_iff split: if_splits dest: set_takeWhileD)

lemma matchScoreProb_score:
  assumes "matchScoreProb s = Some (score, prob, r)"
  shows "\<exists>a b. score = a @ ''-'' @ b \<and> a \<noteq> [] \<and> list_all isDigit a \<and> b \<noteq> [] \<and> list_all isDigit b"
proof -
  from assms obtain s1 a s2 s3 b s4 where
    "many1 isDigit s1 = Some (a, s2)" "many1 isDigit s3 = Some (b, s4)" "score = a @ ''-'' @ b"
    unfolding matchScoreProb_def
    by (auto simp: bind_eq_Some_conv)
  then show ?thesis using many1_digits by blast
qed

lemma matchPossessions_digits:
  "matchPossessions s = Some n \<Longrightarrow> n \<noteq> [] \<and> list_all isDigit n"
  unfolding matchPossessions_def
  by (auto simp: bind_eq_Some_conv dest: many1_digits)

lemma lazyGroup_rest: "lazyGroup rest g s = Some (w, r) \<Longrightarrow> \<exists>cs. rest cs = Some r"
  by (induction s arbitrary: g) (auto split: if_splits option.splits)

lemma predMatch_groups:
  assumes "predMatch pred = Some (w, score, prob, n)"
  shows "(\<exists>a b. score = a @ ''-'' @ b \<and> a \<noteq> [] \<and> list_all isDigit a \<and> b \<noteq> [] \<and> list_all isDigit b)
         \<and> n \<noteq> [] \<and> list_all isDigit n"
proof -
  from assms obtain cs where
    "do { (score, prob, s1) \<leftarrow> matchScoreProb cs; n \<leftarrow> matchPossessions s1; Some (score, prob, n) }
       = Some (score, prob, n)"
    unfolding predMatch_def using lazyGroup_rest by fast
  then obtain s1 where "matchScoreProb cs = Some (score, prob, s1)" "matchPossessions s1 = Some n"
    by (auto simp: bind_eq_Some_conv)
  then show ?thesis using matchScoreProb_score matchPossessions_digits by blast
qed

lemma simplePredMatch_groups:
  assumes "simplePredMatch pred = Some (w, score, prob)"
  shows "\<exists>a b. score = a @ ''-'' @ b \<and> a \<noteq> [] \<and> list_all isDigit a \<and> b \<noteq> [] \<and> list_all isDigit b"
proof -
  from assms obtain cs where
    "do { (score, prob, s1) \<leftarrow> matchScoreProb cs; Some (score, prob) } = Some (score, prob)"
    unfolding simplePredMatch_def using lazyGroup_rest by fast
  then obtain s1 where "matchScoreProb cs = Some (score, prob, s1)"
    by (auto simp: bind_eq_Some_conv)
  then show ?thesis using matchScoreProb_score by blast
qed

lemma split_js_char_none: "c \<notin> set b \<Longrightarrow> split_js [c] acc b = [acc @ b]"
  by (induction b arbitrary: acc) auto

lemma split_js_char:
  "c \<notin> set a \<Longrightarrow> split_js [c] acc (a @ [c] @ b) = (acc @ a) # split_js [c] [] b"
  by (induction a arbitrary: acc) auto

lemma split_js_score:
  assumes "list_all isDigit a" "list_all isDigit b"
  shows "split_js ''-'' [] (a @ ''-'' @ b) = [a, b]"
proof -
  from assms have "CHR ''-'' \<notin> set a" "CHR ''-'' \<notin> set b"
    using isDigit_not_sign by (auto simp: list_all_iff)
  then show ?thesis
    using split_js_char[of "CHR ''-''" a "[]" b] split_js_char_none[of "CHR ''-''" b "[]"]
    by simp
qed

lemma predictedMOV_score:
  assumes "a \<noteq> []" "list_all isDigit a" "b \<noteq> []" "list_all isDigit b"
  shows "predictedMOV (a @ ''-'' @ b) = Some (num_sub (toNumber a) (toNumber b))"
  using split_js_score[OF assms(2,4)] by (simp add: predictedMOV_def Let_def)

lemma num_sub_small:
  assumes "a \<noteq> []" "list_all isDigit a" "length a \<le> 15" "b \<noteq> []" "list_all isDigit b" "length b \<le> 15"
  shows "num_sub (toNumber a) (toNumber b) = Num (digitsValue 10 a - digitsValue 10 b)"
proof -
  from assms have "isScore a" "isScore b" by (simp_all add: isScore_def)
  from isScore_value[OF this(1)] isScore_value[OF this(2)]
  have "\<bar>digitsValue 10 a\<bar> \<le> 2 ^ 53" "\<bar>digitsValue 10 b\<bar> \<le> 2 ^ 53"
    "\<bar>digitsValue 10 a - digitsValue 10 b\<bar> \<le> 2 ^ 53"
    by (auto simp: abs_le_iff)
  with assms show ?thesis
    by (simp add: toNumber_def mk_num_def num_sub_def)
qed

subsection \<open>What the pieces of a pattern read\<close>

lemma run_then_stop:
  "list_all P a \<Longrightarrow> r = [] \<or> \<not> P (hd r) \<Longrightarrow>
     takeWhile P (a @ r) = a \<and> dropWhile P (a @ r) = r"
  by (cases r) (auto simp: list_all_iff)

lemma many1_accepts:
  "a \<noteq> [] \<Longrightarrow> list_all P a \<Longrightarrow> r = [] \<or> \<not> P (hd r) \<Longrightarrow> many1 P (a @ r) = Some (a, r)"
  using run_then_stop[of P a r] by (simp add: many1_def)

lemma many1_shape:
  "many1 P s = Some (a, r) \<Longrightarrow> s = a @ r \<and> a \<noteq> [] \<and> list_all P a"
  by (auto simp: many1_def list_all_iff split: if_splits dest: set_takeWhileD)

lemma lit_iff: "lit c s = Some r \<longleftrightarrow> s = c # r"
  by (cases s) (auto simp: lit_def)

lemma skip_space_shape:
  "dropWhile isWhiteSpace s = r \<Longrightarrow> \<exists>sp. s = sp @ r \<and> list_all isWhiteSpace sp"
proof -
  assume "dropWhile isWhiteSpace s = r"
  then have "s = takeWhile isWhiteSpace s @ r" by (metis takeWhile_dropWhile_id)
  moreover have "list_all isWhiteSpace (takeWhile isWhiteSpace s)"
    by (auto simp: list_all_iff dest: set_takeWhileD)
  ultimately show ?thesis by blast
qed

lemma special_chars:
  "\<not> isDigit CHR ''-''" "\<not> isDigit CHR ''(''" "\<not> isDigit CHR ''%''" "\<not> isDigit CHR '']''"
  "\<not> isWhiteSpace CHR ''(''" "\<not> isWhiteSpace CHR ''[''"
  by (simp_all add: isDigit_def isWhiteSpace_def)

lemma space_not_digit: "isWhiteSpace c \<Longrightarrow> \<not> isDigit c"
  by (auto simp: isDigit_def isWhiteSpace_def)

lemma matchScoreProb_shape:
  assumes "matchScoreProb s = Some (sc, pr, r)"
  shows "\<exists>sp a b sp2 p. s = sp @ a @ ''-'' @ b @ sp2 @ ''('' @ p @ ''%)'' @ r \<and>
           sc = a @ ''-'' @ b \<and> pr = p @ ''%'' \<and>
           sp \<noteq> [] \<and> list_all isWhiteSpace sp \<and> isNumeral a \<and> isNumeral b \<and>
           list_all isWhiteSpace sp2 \<and> isNumeral p"
proof -
  from assms obtain sp s1 a s2 s3 b s4 s5 p s6 s7 where
    m1: "many1 isWhiteSpace s = Some (sp, s1)" and m2: "many1 isDigit s1 = Some (a, s2)" and
    l3: "lit CHR ''-'' s2 = Some s3" and m4: "many1 isDigit s3 = Some (b, s4)" and
    l5: "lit CHR ''('' (dropWhile isWhiteSpace s4) = Some s5" and
    m6: "many1 isDigit s5 = Some (p, s6)" and l7: "lit CHR ''%'' s6 = Some s7" and
    l8: "lit CHR '')'' s7 = Some r" and sc: "sc = a @ ''-'' @ b" and pr: "pr = p @ ''%''"
    unfolding matchScoreProb_def by (auto simp: bind_eq_Some_conv)
  from l5 have "dropWhile isWhiteSpace s4 = CHR ''('' # s5" by (simp add: lit_iff)
  then obtain sp2 where sp2: "s4 = sp2 @ CHR ''('' # s5" "list_all isWhiteSpace sp2"
    using skip_space_shape by blast
  from many1_shape[OF m1] many1_shape[OF m2] many1_shape[OF m4] many1_shape[OF m6] l3 l7 l8 sp2
  have "s = sp @ a @ ''-'' @ b @ sp2 @ ''('' @ p @ ''%)'' @ r"
    and "sp \<noteq> []" "list_all isWhiteSpace sp" "isNumeral a" "isNumeral b" "isNumeral p"
    by (simp_all add: lit_iff isNumeral_def)
  with sc pr sp2(2) show ?thesis by blast
qed

lemma matchScoreProb_accepts:
  assumes "sp \<noteq> []" "list_all isWhiteSpace sp" "isNumeral a" "isNumeral b"
    "list_all isWhiteSpace sp2" "isNumeral p"
  shows "matchScoreProb (sp @ a @ ''-'' @ b @ sp2 @ ''('' @ p @ ''%)'' @ r) =
           Some (a @ ''-'' @ b, p @ ''%'', r)"
proof -
  from assms(3,4,6) have ne: "a \<noteq> []" "b \<noteq> []" "p \<noteq> []"
    and dg: "list_all isDigit a" "list_all isDigit b" "list_all isDigit p"
    by (simp_all add: isNumeral_def)
  from ne(1) dg(1) have "\<not> isWhiteSpace (hd (a @ ''-'' @ b @ sp2 @ ''('' @ p @ ''%)'' @ r))"
    by (cases a) (simp_all add: isDigit_not_space)
  then have m1: "many1 isWhiteSpace (sp @ a @ ''-'' @ b @ sp2 @ ''('' @ p @ ''%)'' @ r) =
      Some (sp, a @ ''-'' @ b @ sp2 @ ''('' @ p @ ''%)'' @ r)"
    using assms(1,2) by (intro many1_accepts) simp_all
  have m2: "many1 isDigit (a @ ''-'' @ b @ sp2 @ ''('' @ p @ ''%)'' @ r) =
      Some (a, ''-'' @ b @ sp2 @ ''('' @ p @ ''%)'' @ r)"
    using ne(1) dg(1) by (intro many1_accepts) (simp_all add: special_chars)
  have "\<not> isDigit (hd (sp2 @ ''('' @ p @ ''%)'' @ r))"
    using assms(5) by (cases sp2) (simp_all add: special_chars space_not_digit)
  then have m4: "many1 isDigit (b @ sp2 @ ''('' @ p @ ''%)'' @ r) =
      Some (b, sp2 @ ''('' @ p @ ''%)'' @ r)"
    using ne(2) dg(2) by (intro many1_accepts) simp_all
  have d5: "dropWhile isWhiteSpace (sp2 @ ''('' @ p @ ''%)'' @ r) = ''('' @ p @ ''%)'' @ r"
    using run_then_stop[of isWhiteSpace sp2 "''('' @ p @ ''%)'' @ r"] assms(5)
    by (simp add: special_chars)
  have m6: "many1 isDigit (p @ ''%)'' @ r) = Some (p, ''%)'' @ r)"
    using ne(3) dg(3) by (intro many1_accepts) (simp_all add: special_chars)
  show ?thesis
    using m1 m2 m4 d5 m6 by (simp add: matchScoreProb_def lit_def)
qed

lemma matchPossessions_shape:
  assumes "matchPossessions s = Some n"
  shows "\<exists>sp3 rest. s = sp3 @ ''['' @ n @ '']'' @ rest \<and> list_all isWhiteSpace sp3 \<and> isNumeral n"
proof -
  from assms obtain s1 s2 s3 where
    l1: "lit CHR ''['' (dropWhile isWhiteSpace s) = Some s1" and
    m2: "many1 isDigit s1 = Some (n, s2)" and l3: "lit CHR '']'' s2 = Some s3"
    unfolding matchPossessions_def by (auto simp: bind_eq_Some_conv)
  from l1 have "dropWhile isWhiteSpace s = CHR ''['' # s1" by (simp add: lit_iff)
  then obtain sp3 where sp3: "s = sp3 @ CHR ''['' # s1" "list_all isWhiteSpace sp3"
    using skip_space_shape by blast
  from many1_shape[OF m2] l3 sp3 have "s = sp3 @ ''['' @ n @ '']'' @ s3" "isNumeral n"
    by (simp_all add: lit_iff isNumeral_def)
  with sp3(2) show ?thesis by blast
qed

lemma matchPossessions_accepts:
  assumes "list_all isWhiteSpace sp3" "isNumeral n"
  shows "matchPossessions (sp3 @ ''['' @ n @ '']'' @ rest) = Some n"
proof -
  from assms(2) have ne: "n \<noteq> []" and dg: "list_all isDigit n"
    by (simp_all add: isNumeral_def)
  have d1: "dropWhile isWhiteSpace (sp3 @ ''['' @ n @ '']'' @ rest) = ''['' @ n @ '']'' @ rest"
    using run_then_stop[of isWhiteSpace sp3 "''['' @ n @ '']'' @ rest"] assms(1)
    by (simp add: special_chars)
  have m2: "many1 isDigit (n @ '']'' @ rest) = Some (n, '']'' @ rest)"
    using ne dg by (intro many1_accepts) (simp_all add: special_chars)
  show ?thesis
    using d1 m2 by (simp add: matchPossessions_def lit_def)
qed

lemma matchPossessions_needs_bracket: "CHR ''['' \<notin> set s \<Longrightarrow> matchPossessions s = None"
proof (rule ccontr)
  assume nb: "CHR ''['' \<notin> set s" and "matchPossessions s \<noteq> None"
  then obtain n where "matchPossessions s = Some n" by auto
  from matchPossessions_shape[OF this] nb show False by auto
qed

subsection \<open>The lazy group\<close>

lemma lazyGroup_shape:
  "lazyGroup rest g s = Some (w, r) \<Longrightarrow>
     \<exists>u tail. w = g @ u \<and> u \<noteq> [] \<and> s = u @ tail \<and>
       list_all (\<lambda>c. \<not> isLineTerminator c) u \<and> rest tail = Some r"
proof (induction s arbitrary: g)
  case Nil
  then show ?case by simp
next
  case (Cons c cs)
  from Cons.prems have c: "\<not> isLineTerminator c" by (auto split: if_splits)
  show ?case
  proof (cases "rest cs")
    case (Some r')
    with Cons.prems c have "w = g @ [c]" "r = r'" by simp_all
    with Some c have "w = g @ [c] \<and> [c] \<noteq> [] \<and> c # cs = [c] @ cs \<and>
        list_all (\<lambda>c. \<not> isLineTerminator c) [c] \<and> rest cs = Some r"
      by simp
    then show ?thesis by blast
  next
    case None
    with Cons.prems c have "lazyGroup rest (g @ [c]) cs = Some (w, r)" by simp
    from Cons.IH[OF this] obtain u tail where
      "w = (g @ [c]) @ u" "u \<noteq> []" "cs = u @ tail"
      "list_all (\<lambda>c. \<not> isLineTerminator c) u" "rest tail = Some r"
      by blast
    with c have "w = g @ (c # u) \<and> c # u \<noteq> [] \<and> c # cs = (c # u) @ tail \<and>
        list_all (\<lambda>c. \<not> isLineTerminator c) (c # u) \<and> rest tail = Some r"
      by simp
    then show ?thesis by blast
  qed
qed

lemma lazyGroup_finds:
  "u \<noteq> [] \<Longrightarrow> list_all (\<lambda>c. \<not> isLineTerminator c) u \<Longrightarrow> rest tail \<noteq> None \<Longrightarrow>
     lazyGroup rest g (u @ tail) \<noteq> None"
proof (induction u arbitrary: g)
  case Nil
  then show ?case by simp
next
  case (Cons c u)
  show ?case
  proof (cases "rest (u @ tail)")
    case (Some r')
    with Cons.prems show ?thesis by simp
  next
    case None
    with Cons.prems have "u \<noteq> []" by (cases u) auto
    with Cons.IH[of "g @ [c]"] Cons.prems None show ?thesis by simp
  qed
qed

lemma lazyGroup_shortest:
  "u \<noteq> [] \<Longrightarrow> list_all (\<lambda>c. \<not> isLineTerminator c) u \<Longrightarrow> rest tail = Some r \<Longrightarrow>
     (\<And>v v'. u = v @ v' \<Longrightarrow> v \<noteq> [] \<Longrightarrow> v' \<noteq> [] \<Longrightarrow> rest (v' @ tail) = None) \<Longrightarrow>
     lazyGroup rest g (u @ tail) = Some (g @ u, r)"
proof (induction u arbitrary: g)
  case Nil
  then show ?case by simp
next
  case (Cons c u)
  show ?case
  proof (cases u)
    case Nil
    with Cons.prems show ?thesis by simp
  next
    case (Cons d u')
    have "c # u = [c] @ u" by simp
    then have none: "rest (u @ tail) = None"
      using Cons.prems(4)[of "[c]" u] Cons by simp
    have "lazyGroup rest (g @ [c]) (u @ tail) = Some ((g @ [c]) @ u, r)"
    proof (rule Cons.IH)
      show "u \<noteq> []" using Cons by simp
      show "list_all (\<lambda>c. \<not> isLineTerminator c) u" using Cons.prems(2) by simp
      show "rest tail = Some r" by (rule Cons.prems(3))
      show "rest (v' @ tail) = None" if "u = v @ v'" "v \<noteq> []" "v' \<noteq> []" for v v'
        using Cons.prems(4)[of "c # v" v'] that by simp
    qed
    with none Cons.prems(2) show ?thesis by simp
  qed
qed

lemma matchScoreProb_after_name:
  assumes "v \<noteq> []" "list_all (\<lambda>c. \<not> isDigit c) v" "\<not> isWhiteSpace (last v)"
  shows "matchScoreProb (v @ tail) = None"
proof (cases "many1 isWhiteSpace (v @ tail)")
  case None
  then show ?thesis by (simp add: matchScoreProb_def)
next
  case (Some m)
  from assms(1,3) have l: "last v \<in> set v" "\<not> isWhiteSpace (last v)" by simp_all
  then have dw: "dropWhile isWhiteSpace (v @ tail) = dropWhile isWhiteSpace v @ tail"
    by (rule dropWhile_append1)
  from l have ne: "dropWhile isWhiteSpace v \<noteq> []" by auto
  then have "hd (dropWhile isWhiteSpace v) \<in> set v"
    by (metis hd_in_set set_dropWhileD)
  with assms(2) have "\<not> isDigit (hd (dropWhile isWhiteSpace v))"
    by (simp add: list_all_iff)
  with ne have "takeWhile isDigit (dropWhile isWhiteSpace v @ tail) = []"
    by (cases "dropWhile isWhiteSpace v") simp_all
  then have "many1 isDigit (dropWhile isWhiteSpace (v @ tail)) = None"
    by (simp add: dw many1_def)
  moreover from Some have "m = (takeWhile isWhiteSpace (v @ tail), dropWhile isWhiteSpace (v @ tail))"
    by (auto simp: many1_def split: if_splits)
  ultimately show ?thesis using Some by (simp add: matchScoreProb_def)
qed

subsection \<open>The two patterns\<close>

lemma no_line_terminator:
  "list_all (\<lambda>c. \<not> isLineTerminator c) w \<longleftrightarrow> CHR 0x0A \<notin> set w \<and> CHR 0x0D \<notin> set w"
  by (auto simp: isLineTerminator_def list_all_iff)

lemma predMatch_shape:
  assumes "predMatch pred = Some (w, sc, pr, n)"
  shows "\<exists>sp a b sp2 p sp3 rest.
           pred = fullPrediction w sp a b sp2 p sp3 n @ rest \<and>
           sc = a @ ''-'' @ b \<and> pr = p @ ''%'' \<and>
           wellFormed w sp a b sp2 p \<and> list_all isWhiteSpace sp3 \<and> isNumeral n"
proof -
  from lazyGroup_shape[OF assms[unfolded predMatch_def]] obtain tail where
    w: "w \<noteq> []" "pred = w @ tail" "list_all (\<lambda>c. \<not> isLineTerminator c) w" and
    "do { (score, prob, s1) \<leftarrow> matchScoreProb tail; n \<leftarrow> matchPossessions s1; Some (score, prob, n) }
       = Some (sc, pr, n)"
    by auto
  then obtain s1 where m: "matchScoreProb tail = Some (sc, pr, s1)" "matchPossessions s1 = Some n"
    by (auto simp: bind_eq_Some_conv)
  from matchScoreProb_shape[OF m(1)] obtain sp a b sp2 p where
    t: "tail = sp @ a @ ''-'' @ b @ sp2 @ ''('' @ p @ ''%)'' @ s1" "sc = a @ ''-'' @ b" "pr = p @ ''%''"
      "sp \<noteq> []" "list_all isWhiteSpace sp" "isNumeral a" "isNumeral b"
      "list_all isWhiteSpace sp2" "isNumeral p"
    by blast
  from matchPossessions_shape[OF m(2)] obtain sp3 rest where
    q: "s1 = sp3 @ ''['' @ n @ '']'' @ rest" "list_all isWhiteSpace sp3" "isNumeral n"
    by blast
  from w t q have "pred = fullPrediction w sp a b sp2 p sp3 n @ rest"
    by (simp add: fullPrediction_def reducedPrediction_def)
  moreover from w t have "wellFormed w sp a b sp2 p"
    by (simp add: wellFormed_def no_line_terminator)
  ultimately show ?thesis using t(2,3) q(2,3) by blast
qed

lemma simplePredMatch_shape:
  assumes "simplePredMatch pred = Some (w, sc, pr)"
  shows "\<exists>sp a b sp2 p rest.
           pred = reducedPrediction w sp a b sp2 p @ rest \<and>
           sc = a @ ''-'' @ b \<and> pr = p @ ''%'' \<and> wellFormed w sp a b sp2 p"
proof -
  from lazyGroup_shape[OF assms[unfolded simplePredMatch_def]] obtain tail where
    w: "w \<noteq> []" "pred = w @ tail" "list_all (\<lambda>c. \<not> isLineTerminator c) w" and
    "do { (score, prob, s1) \<leftarrow> matchScoreProb tail; Some (score, prob) } = Some (sc, pr)"
    by auto
  then obtain s1 where m: "matchScoreProb tail = Some (sc, pr, s1)"
    by (auto simp: bind_eq_Some_conv)
  from matchScoreProb_shape[OF m] obtain sp a b sp2 p where
    t: "tail = sp @ a @ ''-'' @ b @ sp2 @ ''('' @ p @ ''%)'' @ s1" "sc = a @ ''-'' @ b" "pr = p @ ''%''"
      "sp \<noteq> []" "list_all isWhiteSpace sp" "isNumeral a" "isNumeral b"
      "list_all isWhiteSpace sp2" "isNumeral p"
    by blast
  from w t have "pred = reducedPrediction w sp a b sp2 p @ s1"
    by (simp add: reducedPrediction_def)
  moreover from w t have "wellFormed w sp a b sp2 p"
    by (simp add: wellFormed_def no_line_terminator)
  ultimately show ?thesis using t(2,3) by blast
qed

lemma full_tail_accepts:
  assumes "wellFormed w sp a b sp2 p" "list_all isWhiteSpace sp3" "isNumeral n"
  shows "do { (score, prob, s1) \<leftarrow> matchScoreProb (sp @ a @ ''-'' @ b @ sp2 @ ''('' @ p @ ''%)'' @ sp3 @ ''['' @ n @ '']'' @ rest);
              n \<leftarrow> matchPossessions s1; Some (score, prob, n) }
         = Some (a @ ''-'' @ b, p @ ''%'', n)"
proof -
  from assms(1) have "matchScoreProb (sp @ a @ ''-'' @ b @ sp2 @ ''('' @ p @ ''%)'' @ sp3 @ ''['' @ n @ '']'' @ rest)
      = Some (a @ ''-'' @ b, p @ ''%'', sp3 @ ''['' @ n @ '']'' @ rest)"
    by (intro matchScoreProb_accepts) (simp_all add: wellFormed_def)
  moreover have "matchPossessions (sp3 @ ''['' @ n @ '']'' @ rest) = Some n"
    using assms(2,3) by (rule matchPossessions_accepts)
  ultimately show ?thesis by simp
qed

lemma reduced_tail_accepts:
  assumes "wellFormed w sp a b sp2 p"
  shows "do { (score, prob, s1) \<leftarrow> matchScoreProb (sp @ a @ ''-'' @ b @ sp2 @ ''('' @ p @ ''%)'' @ rest);
              Some (score, prob) }
         = Some (a @ ''-'' @ b, p @ ''%'')"
proof -
  from assms have "matchScoreProb (sp @ a @ ''-'' @ b @ sp2 @ ''('' @ p @ ''%)'' @ rest)
      = Some (a @ ''-'' @ b, p @ ''%'', rest)"
    by (intro matchScoreProb_accepts) (simp_all add: wellFormed_def)
  then show ?thesis by simp
qed

lemma fullPrediction_split:
  "fullPrediction w sp a b sp2 p sp3 n @ rest =
     w @ (sp @ a @ ''-'' @ b @ sp2 @ ''('' @ p @ ''%)'' @ sp3 @ ''['' @ n @ '']'' @ rest)"
  by (simp add: fullPrediction_def reducedPrediction_def)

lemma reducedPrediction_split:
  "reducedPrediction w sp a b sp2 p @ rest =
     w @ (sp @ a @ ''-'' @ b @ sp2 @ ''('' @ p @ ''%)'' @ rest)"
  by (simp add: reducedPrediction_def)

lemma predMatch_accepts:
  assumes "wellFormed w sp a b sp2 p" "list_all isWhiteSpace sp3" "isNumeral n"
  shows "predMatch (fullPrediction w sp a b sp2 p sp3 n @ rest) \<noteq> None"
  unfolding predMatch_def fullPrediction_split
proof (rule lazyGroup_finds)
  from assms(1) show "w \<noteq> []" "list_all (\<lambda>c. \<not> isLineTerminator c) w"
    by (simp_all add: wellFormed_def no_line_terminator)
  show "do { (score, prob, s1) \<leftarrow> matchScoreProb (sp @ a @ ''-'' @ b @ sp2 @ ''('' @ p @ ''%)'' @ sp3 @ ''['' @ n @ '']'' @ rest);
              n \<leftarrow> matchPossessions s1; Some (score, prob, n) } \<noteq> None"
    using full_tail_accepts[OF assms] by simp
qed

lemma simplePredMatch_accepts:
  assumes "wellFormed w sp a b sp2 p"
  shows "simplePredMatch (reducedPrediction w sp a b sp2 p @ rest) \<noteq> None"
  unfolding simplePredMatch_def reducedPrediction_split
proof (rule lazyGroup_finds)
  from assms show "w \<noteq> []" "list_all (\<lambda>c. \<not> isLineTerminator c) w"
    by (simp_all add: wellFormed_def no_line_terminator)
  show "do { (score, prob, s1) \<leftarrow> matchScoreProb (sp @ a @ ''-'' @ b @ sp2 @ ''('' @ p @ ''%)'' @ rest);
              Some (score, prob) } \<noteq> None"
    using reduced_tail_accepts[OF assms] by simp
qed

lemma name_suffix:
  assumes "w = v @ v'" "v' \<noteq> []" "list_all (\<lambda>c. \<not> isDigit c) w" "\<not> isWhiteSpace (last w)"
  shows "matchScoreProb (v' @ tail) = None"
proof (rule matchScoreProb_after_name)
  show "v' \<noteq> []" by (rule assms(2))
  from assms(1,3) show "list_all (\<lambda>c. \<not> isDigit c) v'" by simp
  from assms(1,2,4) show "\<not> isWhiteSpace (last v')" by simp
qed

lemma predMatch_groups_exact:
  assumes "wellFormed w sp a b sp2 p" "list_all isWhiteSpace sp3" "isNumeral n"
    and "list_all (\<lambda>c. \<not> isDigit c) w" "\<not> isWhiteSpace (last w)"
  shows "predMatch (fullPrediction w sp a b sp2 p sp3 n @ rest) = Some (w, a @ ''-'' @ b, p @ ''%'', n)"
proof -
  let ?tail = "sp @ a @ ''-'' @ b @ sp2 @ ''('' @ p @ ''%)'' @ sp3 @ ''['' @ n @ '']'' @ rest"
  let ?rest = "\<lambda>s. do { (score, prob, s1) \<leftarrow> matchScoreProb s; n \<leftarrow> matchPossessions s1;
                        Some (score, prob, n) }"
  have "lazyGroup ?rest [] (w @ ?tail) = Some ([] @ w, a @ ''-'' @ b, p @ ''%'', n)"
  proof (rule lazyGroup_shortest)
    from assms(1) show "w \<noteq> []" "list_all (\<lambda>c. \<not> isLineTerminator c) w"
      by (simp_all add: wellFormed_def no_line_terminator)
    show "?rest ?tail = Some (a @ ''-'' @ b, p @ ''%'', n)"
      using assms(1-3) by (rule full_tail_accepts)
    show "?rest (v' @ ?tail) = None" if "w = v @ v'" "v \<noteq> []" "v' \<noteq> []" for v v'
      using name_suffix[OF that(1,3) assms(4,5), of ?tail] by simp
  qed
  then show ?thesis unfolding predMatch_def fullPrediction_split by simp
qed

lemma simplePredMatch_groups_exact:
  assumes "wellFormed w sp a b sp2 p"
    and "list_all (\<lambda>c. \<not> isDigit c) w" "\<not> isWhiteSpace (last w)"
  shows "simplePredMatch (reducedPrediction w sp a b sp2 p @ rest) = Some (w, a @ ''-'' @ b, p @ ''%'')"
proof -
  let ?tail = "sp @ a @ ''-'' @ b @ sp2 @ ''('' @ p @ ''%)'' @ rest"
  let ?rest = "\<lambda>s. do { (score, prob, s1) \<leftarrow> matchScoreProb s; Some (score, prob) }"
  have "lazyGroup ?rest [] (w @ ?tail) = Some ([] @ w, a @ ''-'' @ b, p @ ''%'')"
  proof (rule lazyGroup_shortest)
    from assms(1) show "w \<noteq> []" "list_all (\<lambda>c. \<not> isLineTerminator c) w"
      by (simp_all add: wellFormed_def no_line_terminator)
    show "?rest ?tail = Some (a @ ''-'' @ b, p @ ''%'')"
      using assms(1) by (rule reduced_tail_accepts)
    show "?rest (v' @ ?tail) = None" if "w = v @ v'" "v \<noteq> []" "v' \<noteq> []" for v v'
      using name_suffix[OF that(1,3) assms(2,3), of ?tail] by simp
  qed
  then show ?thesis unfolding simplePredMatch_def reducedPrediction_split by simp
qed

lemma predMatch_needs_bracket: "CHR ''['' \<notin> set pred \<Longrightarrow> predMatch pred = None"
proof (rule ccontr)
  assume nb: "CHR ''['' \<notin> set pred" and "predMatch pred \<noteq> None"
  then obtain w sc pr n where "predMatch pred = Some (w, sc, pr, n)" by auto
  from predMatch_shape[OF this] nb show False
    by (auto simp: fullPrediction_def)
qed

lemma predMatch_iff_shape:
  "predMatch pred \<noteq> None \<longleftrightarrow>
     (\<exists>w sp a b sp2 p sp3 n rest.
        pred = fullPrediction w sp a b sp2 p sp3 n @ rest \<and>
        wellFormed w sp a b sp2 p \<and> list_all isWhiteSpace sp3 \<and> isNumeral n)"
proof
  assume "predMatch pred \<noteq> None"
  then obtain w sc pr n where "predMatch pred = Some (w, sc, pr, n)" by auto
  from predMatch_shape[OF this]
  show "\<exists>w sp a b sp2 p sp3 n rest.
        pred = fullPrediction w sp a b sp2 p sp3 n @ rest \<and>
        wellFormed w sp a b sp2 p \<and> list_all isWhiteSpace sp3 \<and> isNumeral n"
    by blast
next
  assume "\<exists>w sp a b sp2 p sp3 n rest.
        pred = fullPrediction w sp a b sp2 p sp3 n @ rest \<and>
        wellFormed w sp a b sp2 p \<and> list_all isWhiteSpace sp3 \<and> isNumeral n"
  then show "predMatch pred \<noteq> None" using predMatch_accepts by blast
qed

lemma simplePredMatch_iff_shape:
  "simplePredMatch pred \<noteq> None \<longleftrightarrow>
     (\<exists>w sp a b sp2 p rest.
        pred = reducedPrediction w sp a b sp2 p @ rest \<and> wellFormed w sp a b sp2 p)"
proof
  assume "simplePredMatch pred \<noteq> None"
  then obtain w sc pr where "simplePredMatch pred = Some (w, sc, pr)" by auto
  from simplePredMatch_shape[OF this]
  show "\<exists>w sp a b sp2 p rest.
        pred = reducedPrediction w sp a b sp2 p @ rest \<and> wellFormed w sp a b sp2 p"
    by blast
next
  assume "\<exists>w sp a b sp2 p rest.
        pred = reducedPrediction w sp a b sp2 p @ rest \<and> wellFormed w sp a b sp2 p"
  then show "simplePredMatch pred \<noteq> None" using simplePredMatch_accepts by blast
qed

lemma full_is_reduced:
  "predMatch pred \<noteq> None \<Longrightarrow> simplePredMatch pred \<noteq> None"
proof -
  assume "predMatch pred \<noteq> None"
  then obtain w sp a b sp2 p sp3 n rest where
    "pred = fullPrediction w sp a b sp2 p sp3 n @ rest" "wellFormed w sp a b sp2 p"
    using predMatch_iff_shape by blast
  then have "pred = reducedPrediction w sp a b sp2 p @ (sp3 @ ''['' @ n @ '']'' @ rest)"
    "wellFormed w sp a b sp2 p"
    by (simp_all add: fullPrediction_def)
  then show ?thesis using simplePredMatch_accepts by metis
qed

lemma no_bracket:
  assumes "wellFormed w sp a b sp2 p" "CHR ''['' \<notin> set (w @ rest)"
  shows "CHR ''['' \<notin> set (reducedPrediction w sp a b sp2 p @ rest)"
proof -
  have nb: "\<not> isWhiteSpace CHR ''[''" "\<not> isDigit CHR ''[''"
    by (simp_all add: isWhiteSpace_def isDigit_def)
  with assms show ?thesis
    by (auto simp: reducedPrediction_def wellFormed_def isNumeral_def list_all_iff)
qed

lemma parsePrediction_full:
  assumes "wellFormed w sp a b sp2 p" "list_all isWhiteSpace sp3" "isNumeral n"
    and "list_all (\<lambda>c. \<not> isDigit c) w" "\<not> isWhiteSpace (last w)"
  shows "parsePrediction (fullPrediction w sp a b sp2 p sp3 n @ rest) =
     \<lparr>PredictedWinner = Some (trim w), PredictedScore = Some (a @ ''-'' @ b),
      WinProbability = Some (p @ ''%''), PredictedPossessions = Some (parseFloat n),
      PredictedMOV = Some (num_sub (toNumber a) (toNumber b))\<rparr>"
proof -
  from assms(1) have ab: "a \<noteq> []" "list_all isDigit a" "b \<noteq> []" "list_all isDigit b"
    by (simp_all add: wellFormed_def isNumeral_def)
  from assms(3) have n: "n \<noteq> []" by (simp add: isNumeral_def)
  have "predictedMOV (a @ ''-'' @ b) = Some (num_sub (toNumber a) (toNumber b))"
    using ab by (rule predictedMOV_score)
  with predMatch_groups_exact[OF assms, of rest] n show ?thesis
    by (simp add: parsePrediction_def)
qed

lemma parsePrediction_reduced:
  assumes "wellFormed w sp a b sp2 p"
    and "list_all (\<lambda>c. \<not> isDigit c) w" "\<not> isWhiteSpace (last w)"
    and "CHR ''['' \<notin> set (w @ rest)"
  shows "parsePrediction (reducedPrediction w sp a b sp2 p @ rest) =
     \<lparr>PredictedWinner = Some (trim w), PredictedScore = Some (a @ ''-'' @ b),
      WinProbability = Some (p @ ''%''), PredictedPossessions = None,
      PredictedMOV = Some (num_sub (toNumber a) (toNumber b))\<rparr>"
proof -
  from assms(1) have ab: "a \<noteq> []" "list_all isDigit a" "b \<noteq> []" "list_all isDigit b"
    by (simp_all add: wellFormed_def isNumeral_def)
  have "predictedMOV (a @ ''-'' @ b) = Some (num_sub (toNumber a) (toNumber b))"
    using ab by (rule predictedMOV_score)
  moreover have "predMatch (reducedPrediction w sp a b sp2 p @ rest) = None"
    using no_bracket[OF assms(1,4)] by (rule predMatch_needs_bracket)
  ultimately show ?thesis
    using simplePredMatch_groups_exact[OF assms(1-3), of rest]
    by (simp add: parsePrediction_def)
qed

lemma parsePrediction_unmatched:
  assumes "\<forall>w sp a b sp2 p rest.
      pred = reducedPrediction w sp a b sp2 p @ rest \<longrightarrow> \<not> wellFormed w sp a b sp2 p"
  shows "parsePrediction pred =
     \<lparr>PredictedWinner = None, PredictedScore = None, WinProbability = None,
      PredictedPossessions = None, PredictedMOV = None\<rparr>"
proof -
  from assms have s: "simplePredMatch pred = None"
    using simplePredMatch_iff_shape[of pred] by blast
  then have "predMatch pred = None" using full_is_reduced[of pred] by blast
  with s show ?thesis by (simp add: parsePrediction_def)
qed

text \<open>
  Claim C8. The full pattern matches exactly the strings that begin with a full
  prediction (a name, white space, \<^verbatim>\<open>score-score\<close>, \<^verbatim>\<open>(NN%)\<close>, \<^verbatim>\<open>[possessions]\<close>), the reduced
  pattern exactly those that begin with a prediction without the bracketed possession
  count, and the groups of a match are the parts of that prediction. The parser tries the
  full pattern first, then the reduced one, and sets all five fields to null when neither
  matches. Whenever a pattern matches, \<^verbatim>\<open>PredictedScore\<close> is two numerals around a hyphen
  and \<^verbatim>\<open>PredictedMOV\<close> is the first number minus the second (an exact integer when neither
  numeral has more than 15 digits). For a name without digits that does not end in white
  space the fields are the trimmed name, the score, the percentage, the possession count
  when it is there, and the margin; \<^verbatim>\<open>"Duke 82-75 (75%) [68]"\<close> yields \<^verbatim>\<open>"Duke"\<close>,
  \<^verbatim>\<open>"82-75"\<close>, \<^verbatim>\<open>"75%"\<close>, 68 and 7.
\<close>

theorem parsePrediction_patterns:
  "(predMatch pred = Some (w, sc, pr, n) \<longrightarrow>
      parsePrediction pred =
        \<lparr>PredictedWinner = Some (trim w), PredictedScore = Some sc, WinProbability = Some pr,
         PredictedPossessions = Some (parseFloat n), PredictedMOV = predictedMOV sc\<rparr>) \<and>
   (predMatch pred = None \<and> simplePredMatch pred = Some (w, sc, pr) \<longrightarrow>
      parsePrediction pred =
        \<lparr>PredictedWinner = Some (trim w), PredictedScore = Some sc, WinProbability = Some pr,
         PredictedPossessions = None, PredictedMOV = predictedMOV sc\<rparr>) \<and>
   (predMatch pred = None \<and> simplePredMatch pred = None \<longrightarrow>
      parsePrediction pred =
        \<lparr>PredictedWinner = None, PredictedScore = None, WinProbability = None,
         PredictedPossessions = None, PredictedMOV = None\<rparr>) \<and>
   (PredictedScore (parsePrediction pred) = Some sc \<longrightarrow>
      (\<exists>a b. sc = a @ ''-'' @ b \<and> a \<noteq> [] \<and> list_all isDigit a \<and> b \<noteq> [] \<and> list_all isDigit b \<and>
         PredictedMOV (parsePrediction pred) = Some (num_sub (toNumber a) (toNumber b)) \<and>
         (length a \<le> 15 \<and> length b \<le> 15 \<longrightarrow>
            PredictedMOV (parsePrediction pred) = Some (Num (digitsValue 10 a - digitsValue 10 b))))) \<and>
   parsePrediction ''Duke 82-75 (75%) [68]'' =
     \<lparr>PredictedWinner = Some ''Duke'', PredictedScore = Some ''82-75'',
      WinProbability = Some ''75%'', PredictedPossessions = Some (Num 68),
      PredictedMOV = Some (Num 7)\<rparr> \<and>
   (predMatch pred \<noteq> None \<longleftrightarrow>
      (\<exists>w sp a b sp2 p sp3 n rest.
         pred = fullPrediction w sp a b sp2 p sp3 n @ rest \<and>
         wellFormed w sp a b sp2 p \<and> list_all isWhiteSpace sp3 \<and> isNumeral n)) \<and>
   (simplePredMatch pred \<noteq> None \<longleftrightarrow>
      (\<exists>w sp a b sp2 p rest.
         pred = reducedPrediction w sp a b sp2 p @ rest \<and> wellFormed w sp a b sp2 p)) \<and>
   (predMatch pred = Some (w, sc, pr, n) \<longrightarrow>
      (\<exists>sp a b sp2 p sp3 rest.
         pred = fullPrediction w sp a b sp2 p sp3 n @ rest \<and>
         sc = a @ ''-'' @ b \<and> pr = p @ ''%'' \<and>
         wellFormed w sp a b sp2 p \<and> list_all isWhiteSpace sp3 \<and> isNumeral n)) \<and>
   (simplePredMatch pred = Some (w, sc, pr) \<longrightarrow>
      (\<exists>sp a b sp2 p rest.
         pred = reducedPrediction w sp a b sp2 p @ rest \<and>
         sc = a @ ''-'' @ b \<and> pr = p @ ''%'' \<and> wellFormed w sp a b sp2 p)) \<and>
   (wellFormed name sp a b sp2 p \<and> list_all (\<lambda>c. \<not> isDigit c) name \<and> \<not> isWhiteSpace (last name) \<and>
    list_all isWhiteSpace sp3 \<and> isNumeral poss \<longrightarrow>
      parsePrediction (fullPrediction name sp a b sp2 p sp3 poss @ rest) =
        \<lparr>PredictedWinner = Some (trim name), PredictedScore = Some (a @ ''-'' @ b),
         WinProbability = Some (p @ ''%''), PredictedPossessions = Some (parseFloat poss),
         PredictedMOV = Some (num_sub (toNumber a) (toNumber b))\<rparr>) \<and>
   (wellFormed name sp a b sp2 p \<and> list_all (\<lambda>c. \<not> isDigit c) name \<and> \<not> isWhiteSpace (last name) \<and>
    CHR ''['' \<notin> set (name @ rest) \<longrightarrow>
      parsePrediction (reducedPrediction name sp a b sp2 p @ rest) =
        \<lparr>PredictedWinner = Some (trim name), PredictedScore = Some (a @ ''-'' @ b),
         WinProbability = Some (p @ ''%''), PredictedPossessions = None,
         PredictedMOV = Some (num_sub (toNumber a) (toNumber b))\<rparr>) \<and>
   ((\<forall>w sp a b sp2 p rest.
       pred = reducedPrediction w sp a b sp2 p @ rest \<longrightarrow> \<not> wellFormed w sp a b sp2 p) \<longrightarrow>
      parsePrediction pred =
        \<lparr>PredictedWinner = None, PredictedScore = None, WinProbability = None,
         PredictedPossessions = None, PredictedMOV = None\<rparr>)"
proof -
  have full: "predMatch pred = Some (w, sc, pr, n) \<longrightarrow>
      parsePrediction pred =
        \<lparr>PredictedWinner = Some (trim w), PredictedScore = Some sc, WinProbability = Some pr,
         PredictedPossessions = Some (parseFloat n), PredictedMOV = predictedMOV sc\<rparr>"
    using predMatch_groups[of pred w sc pr n] by (auto simp: parsePrediction_def)
  have simple: "predMatch pred = None \<and> simplePredMatch pred = Some (w, sc, pr) \<longrightarrow>
      parsePrediction pred =
        \<lparr>PredictedWinner = Some (trim w), PredictedScore = Some sc, WinProbability = Some pr,
         PredictedPossessions = None, PredictedMOV = predictedMOV sc\<rparr>"
    by (simp add: parsePrediction_def)
  have none: "predMatch pred = None \<and> simplePredMatch pred = None \<longrightarrow>
      parsePrediction pred =
        \<lparr>PredictedWinner = None, PredictedScore = None, WinProbability = None,
         PredictedPossessions = None, PredictedMOV = None\<rparr>"
    by (simp add: parsePrediction_def)
  have mov: "PredictedScore (parsePrediction pred) = Some sc \<longrightarrow>
      (\<exists>a b. sc = a @ ''-'' @ b \<and> a \<noteq> [] \<and> list_all isDigit a \<and> b \<noteq> [] \<and> list_all isDigit b \<and>
         PredictedMOV (parsePrediction pred) = Some (num_sub (toNumber a) (toNumber b)) \<and>
         (length a \<le> 15 \<and> length b \<le> 15 \<longrightarrow>
            PredictedMOV (parsePrediction pred) = Some (Num (digitsValue 10 a - digitsValue 10 b))))"
  proof
    assume sc: "PredictedScore (parsePrediction pred) = Some sc"
    then have m: "PredictedMOV (parsePrediction pred) = predictedMOV sc"
      by (auto simp: parsePrediction_def split: option.splits)
    from sc have "(\<exists>w pr n. predMatch pred = Some (w, sc, pr, n)) \<or>
                  (\<exists>w pr. simplePredMatch pred = Some (w, sc, pr))"
      by (auto simp: parsePrediction_def split: option.splits)
    then obtain a b where ab: "sc = a @ ''-'' @ b" "a \<noteq> []" "list_all isDigit a"
        "b \<noteq> []" "list_all isDigit b"
      using predMatch_groups simplePredMatch_groups by blast
    then have "predictedMOV sc = Some (num_sub (toNumber a) (toNumber b))"
      using predictedMOV_score[of a b] by simp
    with m ab num_sub_small[of a b] show "\<exists>a b. sc = a @ ''-'' @ b \<and> a \<noteq> [] \<and> list_all isDigit a \<and>
         b \<noteq> [] \<and> list_all isDigit b \<and>
         PredictedMOV (parsePrediction pred) = Some (num_sub (toNumber a) (toNumber b)) \<and>
         (length a \<le> 15 \<and> length b \<le> 15 \<longrightarrow>
            PredictedMOV (parsePrediction pred) = Some (Num (digitsValue 10 a - digitsValue 10 b)))"
      by (intro exI[of _ a] exI[of _ b]) simp
  qed
  have ex: "parsePrediction ''Duke 82-75 (75%) [68]'' =
     \<lparr>PredictedWinner = Some ''Duke'', PredictedScore = Some ''82-75'',
      WinProbability = Some ''75%'', PredictedPossessions = Some (Num 68),
      PredictedMOV = Some (Num 7)\<rparr>"
    by code_simp
  have shape_full: "predMatch pred = Some (w, sc, pr, n) \<longrightarrow>
      (\<exists>sp a b sp2 p sp3 rest.
         pred = fullPrediction w sp a b sp2 p sp3 n @ rest \<and>
         sc = a @ ''-'' @ b \<and> pr = p @ ''%'' \<and>
         wellFormed w sp a b sp2 p \<and> list_all isWhiteSpace sp3 \<and> isNumeral n)"
    using predMatch_shape[of pred w sc pr n] by blast
  have shape_simple: "simplePredMatch pred = Some (w, sc, pr) \<longrightarrow>
      (\<exists>sp a b sp2 p rest.
         pred = reducedPrediction w sp a b sp2 p @ rest \<and>
         sc = a @ ''-'' @ b \<and> pr = p @ ''%'' \<and> wellFormed w sp a b sp2 p)"
    using simplePredMatch_shape[of pred w sc pr] by blast
  have res_full: "wellFormed name sp a b sp2 p \<and> list_all (\<lambda>c. \<not> isDigit c) name \<and>
    \<not> isWhiteSpace (last name) \<and> list_all isWhiteSpace sp3 \<and> isNumeral poss \<longrightarrow>
      parsePrediction (fullPrediction name sp a b sp2 p sp3 poss @ rest) =
        \<lparr>PredictedWinner = Some (trim name), PredictedScore = Some (a @ ''-'' @ b),
         WinProbability = Some (p @ ''%''), PredictedPossessions = Some (parseFloat poss),
         PredictedMOV = Some (num_sub (toNumber a) (toNumber b))\<rparr>"
    using parsePrediction_full[of name sp a b sp2 p sp3 poss rest] by blast
  have res_reduced: "wellFormed name sp a b sp2 p \<and> list_all (\<lambda>c. \<not> isDigit c) name \<and>
    \<not> isWhiteSpace (last name) \<and> CHR ''['' \<notin> set (name @ rest) \<longrightarrow>
      parsePrediction (reducedPrediction name sp a b sp2 p @ rest) =
        \<lparr>PredictedWinner = Some (trim name), PredictedScore = Some (a @ ''-'' @ b),
         WinProbability = Some (p @ ''%''), PredictedPossessions = None,
         PredictedMOV = Some (num_sub (toNumber a) (toNumber b))\<rparr>"
    using parsePrediction_reduced[of name sp a b sp2 p rest] by blast
  have res_none: "(\<forall>w sp a b sp2 p rest.
       pred = reducedPrediction w sp a b sp2 p @ rest \<longrightarrow> \<not> wellFormed w sp a b sp2 p) \<longrightarrow>
      parsePrediction pred =
        \<lparr>PredictedWinner = None, PredictedScore = None, WinProbability = None,
         PredictedPossessions = None, PredictedMOV = None\<rparr>"
    using parsePrediction_unmatched[of pred] by blast
  show ?thesis
    apply (intro conjI)
    apply (rule full)
    apply (rule simple)
    apply (rule none)
    apply (rule mov)
    apply (rule ex)
    apply (rule predMatch_iff_shape)
    apply (rule simplePredMatch_iff_shape)
    apply (rule shape_full)
    apply (rule shape_simple)
    apply (rule res_full)
    apply (rule res_reduced)
    apply (rule res_none)
    done
qed

theorem parsePrediction_patterns_witness:
  "parsePrediction ''North Carolina  91-70(88%)[71] x'' =
     \<lparr>PredictedWinner = Some ''North Carolina'', PredictedScore = Some ''91-70'',
      WinProbability = Some ''88%'', PredictedPossessions = Some (Num 71),
      PredictedMOV = Some (Num 21)\<rparr> \<and>
   parsePrediction ''Duke 80-75 (65%)'' =
     \<lparr>PredictedWinner = Some ''Duke'', PredictedScore = Some ''80-75'',
      WinProbability = Some ''65%'', PredictedPossessions = None,
      PredictedMOV = Some (Num 5)\<rparr> \<and>
   parsePrediction ''TBD'' =
     \<lparr>PredictedWinner = None, PredictedScore = None, WinProbability = None,
      PredictedPossessions = None, PredictedMOV = None\<rparr>"
proof -
  have wf1: "wellFormed ''North Carolina'' ''  '' ''91'' ''70'' [] ''88'' \<and>
       list_all (\<lambda>c. \<not> isDigit c) ''North Carolina'' \<and> \<not> isWhiteSpace (last ''North Carolina'') \<and>
       list_all isWhiteSpace [] \<and> isNumeral ''71''"
    by code_simp
  have s1: "fullPrediction ''North Carolina'' ''  '' ''91'' ''70'' [] ''88'' [] ''71'' @ '' x'' =
       ''North Carolina  91-70(88%)[71] x''"
    by (simp add: fullPrediction_def reducedPrediction_def)
  have v1: "trim ''North Carolina'' = ''North Carolina''" "parseFloat ''71'' = Num 71"
    "num_sub (toNumber ''91'') (toNumber ''70'') = Num 21"
    by code_simp+
  have wf2: "wellFormed ''Duke'' '' '' ''80'' ''75'' '' '' ''65'' \<and>
       list_all (\<lambda>c. \<not> isDigit c) ''Duke'' \<and> \<not> isWhiteSpace (last ''Duke'') \<and>
       CHR ''['' \<notin> set (''Duke'' @ [])"
    by code_simp
  have s2: "reducedPrediction ''Duke'' '' '' ''80'' ''75'' '' '' ''65'' @ [] = ''Duke 80-75 (65%)''"
    by (simp add: reducedPrediction_def)
  have v2: "trim ''Duke'' = ''Duke''" "num_sub (toNumber ''80'') (toNumber ''75'') = Num 5"
    by code_simp+
  have no: "\<forall>w sp a b sp2 p rest.
       ''TBD'' = reducedPrediction w sp a b sp2 p @ rest \<longrightarrow> \<not> wellFormed w sp a b sp2 p"
  proof (intro allI impI)
    fix w sp a b sp2 p rest
    assume "''TBD'' = reducedPrediction w sp a b sp2 p @ rest"
    then have "set ''TBD'' = set (reducedPrediction w sp a b sp2 p @ rest)" by simp
    then have "CHR ''-'' \<in> set ''TBD''" by (simp add: reducedPrediction_def)
    then show "\<not> wellFormed w sp a b sp2 p" by simp
  qed
  from parsePrediction_patterns[where name = "''North Carolina''" and sp = "''  ''" and a = "''91''"
      and b = "''70''" and ?sp2.0 = "[]" and p = "''88''" and ?sp3.0 = "[]" and poss = "''71''"
      and rest = "'' x''" and pred = "''TBD''"] wf1 no
  have r1: "parsePrediction (fullPrediction ''North Carolina'' ''  '' ''91'' ''70'' [] ''88'' [] ''71'' @ '' x'') =
        \<lparr>PredictedWinner = Some (trim ''North Carolina''), PredictedScore = Some (''91'' @ ''-'' @ ''70''),
         WinProbability = Some (''88'' @ ''%''), PredictedPossessions = Some (parseFloat ''71''),
         PredictedMOV = Some (num_sub (toNumber ''91'') (toNumber ''70''))\<rparr>"
    and r3: "parsePrediction ''TBD'' =
     \<lparr>PredictedWinner = None, PredictedScore = None, WinProbability = None,
      PredictedPossessions = None, PredictedMOV = None\<rparr>"
    by blast+
  from parsePrediction_patterns[where name = "''Duke''" and sp = "'' ''" and a = "''80''"
      and b = "''75''" and ?sp2.0 = "'' ''" and p = "''65''" and rest = "[]"] wf2
  have r2: "parsePrediction (reducedPrediction ''Duke'' '' '' ''80'' ''75'' '' '' ''65'' @ []) =
        \<lparr>PredictedWinner = Some (trim ''Duke''), PredictedScore = Some (''80'' @ ''-'' @ ''75''),
         WinProbability = Some (''65'' @ ''%''), PredictedPossessions = None,
         PredictedMOV = Some (num_sub (toNumber ''80'') (toNumber ''75''))\<rparr>"
    by blast
  from r1 r2 r3 show ?thesis
    unfolding s1 s2 v1 v2 by simp
qed

section \<open>Properties of header derivation\<close>

subsection \<open>Printing an index\<close>





subsection \<open>The loops, one cell at a time\<close>






subsection \<open>When the derived names are unique\<close>



lemma append_Rank_inj: "t @ ''.Rank'' = u @ ''.Rank'' \<Longrightarrow> t = u"
  by simp



















end
